theory Spec2Isabelle
  imports Main "HOL-Library.Char_ord" "HOL-Library.List_Lexorder"
begin

section \<open>Python values and exceptions\<close>

text \<open>
  The configuration, schema and types documents are trees as produced by a YAML loader:
  scalars, sequences and mappings with string keys. A mapping is an association list in
  insertion order (the order in which Python iterates a dict); its keys are distinct.
  Floating point scalars are left out.
\<close>

datatype scalar = SNone | SBool bool | SInt int | SStr string

datatype pyval = PScalar scalar | PList "pyval list" | PDict "(string \<times> pyval) list"

text \<open>Exceptions are identified by their class; their arguments are not modelled,
  except for the test description carried by \<open>ConfigValidationTestFailedError\<close>.\<close>

datatype py_error =
    KeyError
  | TypeError
  | IndexError
  | AttributeError
  | ReError
  | NotImplementedError
  | FileNotFoundError
  | OSError
  | ConfigValidationTestFailedError string

text \<open>\<open>re.fullmatch\<close> belongs to the Python standard library. It is a parameter of the
  validator: pattern and subject string in, either an exception (an invalid pattern) or
  whether a match object was returned.\<close>

type_synonym matcher = "string \<Rightarrow> string \<Rightarrow> py_error + bool"

text \<open>On a pattern without metacharacters \<open>re.fullmatch\<close> succeeds exactly on the
  pattern itself. This matcher is used for concrete evaluations with such patterns.\<close>

definition literal_fullmatch :: matcher where
  "literal_fullmatch pat s = Inr (pat = s)"

subsection \<open>Decimal rendering of integers: \<open>str(int)\<close>\<close>

definition digit_char :: "nat \<Rightarrow> char" where
  "digit_char d = ''0123456789'' ! d"

function string_of_nat :: "nat \<Rightarrow> string" where
  "string_of_nat n =
     (if n < 10 then [digit_char n] else string_of_nat (n div 10) @ [digit_char (n mod 10)])"
  by pat_completeness auto
termination
  by (relation "measure (\<lambda>n. n)") auto

declare string_of_nat.simps [simp del]

definition string_of_int :: "int \<Rightarrow> string" where
  "string_of_int i = (if i < 0 then CHR ''-'' # string_of_nat (nat (- i)) else string_of_nat (nat i))"

fun py_str :: "scalar \<Rightarrow> string" where
  "py_str SNone = ''None''"
| "py_str (SBool b) = (if b then ''True'' else ''False'')"
| "py_str (SInt i) = string_of_int i"
| "py_str (SStr s) = s"

subsection \<open>Truthiness, hashing, equality, \<open>isinstance\<close>\<close>

fun py_truthy :: "pyval \<Rightarrow> bool" where
  "py_truthy (PScalar SNone) = False"
| "py_truthy (PScalar (SBool b)) = b"
| "py_truthy (PScalar (SInt i)) = (i \<noteq> 0)"
| "py_truthy (PScalar (SStr s)) = (s \<noteq> [])"
| "py_truthy (PList xs) = (xs \<noteq> [])"
| "py_truthy (PDict kvs) = (kvs \<noteq> [])"

text \<open>Lists and dicts are unhashable.\<close>

fun hashable :: "pyval \<Rightarrow> bool" where
  "hashable (PScalar _) = True"
| "hashable (PList _) = False"
| "hashable (PDict _) = False"

text \<open>Python's \<open>==\<close> (and \<open>hash\<close>) identify \<open>True\<close> with \<open>1\<close> and \<open>False\<close> with \<open>0\<close>;
  \<open>eq_key\<close> maps a hashable value to a representative of its equality class.\<close>

fun eq_key :: "pyval \<Rightarrow> pyval" where
  "eq_key (PScalar (SBool b)) = PScalar (SInt (if b then 1 else 0))"
| "eq_key v = v"

text \<open>\<open>isinstance(v, type(t))\<close>: \<open>bool\<close> is a subclass of \<open>int\<close>.\<close>

fun py_isinstance :: "pyval \<Rightarrow> pyval \<Rightarrow> bool" where
  "py_isinstance (PScalar SNone) (PScalar SNone) = True"
| "py_isinstance (PScalar (SBool _)) (PScalar (SBool _)) = True"
| "py_isinstance (PScalar (SBool _)) (PScalar (SInt _)) = True"
| "py_isinstance (PScalar (SInt _)) (PScalar (SInt _)) = True"
| "py_isinstance (PScalar (SStr _)) (PScalar (SStr _)) = True"
| "py_isinstance (PList _) (PList _) = True"
| "py_isinstance (PDict _) (PDict _) = True"
| "py_isinstance _ _ = False"

subsection \<open>Subscripting, membership, iteration\<close>

text \<open>\<open>obj[key]\<close> with a string key.\<close>

fun py_getitem :: "pyval \<Rightarrow> string \<Rightarrow> py_error + pyval" where
  "py_getitem (PDict kvs) k = (case map_of kvs k of None \<Rightarrow> Inl KeyError | Some v \<Rightarrow> Inr v)"
| "py_getitem (PList _) k = Inl TypeError"
| "py_getitem (PScalar _) k = Inl TypeError"

text \<open>\<open>obj[0]\<close>. A mapping has string keys only, so \<open>0\<close> is never one of them.\<close>

fun py_getitem0 :: "pyval \<Rightarrow> py_error + pyval" where
  "py_getitem0 (PList []) = Inl IndexError"
| "py_getitem0 (PList (x # _)) = Inr x"
| "py_getitem0 (PDict _) = Inl KeyError"
| "py_getitem0 (PScalar (SStr [])) = Inl IndexError"
| "py_getitem0 (PScalar (SStr (c # _))) = Inr (PScalar (SStr [c]))"
| "py_getitem0 (PScalar _) = Inl TypeError"

fun is_substring :: "string \<Rightarrow> string \<Rightarrow> bool" where
  "is_substring x [] = (x = [])"
| "is_substring x (c # s) = (take (length x) (c # s) = x \<or> is_substring x s)"

text \<open>\<open>k in obj\<close> for a string \<open>k\<close>.\<close>

fun str_in :: "string \<Rightarrow> pyval \<Rightarrow> py_error + bool" where
  "str_in k (PDict kvs) = Inr (k \<in> set (map fst kvs))"
| "str_in k (PList xs) = Inr (PScalar (SStr k) \<in> set xs)"
| "str_in k (PScalar (SStr s)) = Inr (is_substring k s)"
| "str_in k (PScalar _) = Inl TypeError"

text \<open>\<open>x in d\<close> for a dict \<open>d\<close>: the key is hashed first.\<close>

fun in_dict :: "pyval \<Rightarrow> (string \<times> pyval) list \<Rightarrow> py_error + bool" where
  "in_dict (PScalar (SStr k)) kvs = Inr (k \<in> set (map fst kvs))"
| "in_dict (PScalar _) kvs = Inr False"
| "in_dict (PList _) kvs = Inl TypeError"
| "in_dict (PDict _) kvs = Inl TypeError"

text \<open>The elements a \<open>for\<close> loop or comprehension sees.\<close>

fun py_iter :: "pyval \<Rightarrow> py_error + pyval list" where
  "py_iter (PList xs) = Inr xs"
| "py_iter (PDict kvs) = Inr (map (\<lambda>kv. PScalar (SStr (fst kv))) kvs)"
| "py_iter (PScalar (SStr s)) = Inr (map (\<lambda>c. PScalar (SStr [c])) s)"
| "py_iter (PScalar _) = Inl TypeError"

text \<open>A list comprehension \<open>[f(x) for x in xs]\<close>: every element is evaluated, in order;
  the first exception ends it.\<close>

fun comprehension :: "('a \<Rightarrow> py_error + 'b) \<Rightarrow> 'a list \<Rightarrow> py_error + 'b list" where
  "comprehension f [] = Inr []"
| "comprehension f (x # xs) =
     (case f x of Inl e \<Rightarrow> Inl e
      | Inr y \<Rightarrow> (case comprehension f xs of Inl e \<Rightarrow> Inl e | Inr ys \<Rightarrow> Inr (y # ys)))"

section \<open>The Type/Schema validator (config\_validation.py)\<close>

definition basic_validation_dict :: "(string \<times> pyval) list \<Rightarrow> pyval \<Rightarrow> py_error + bool" where
  "basic_validation_dict config schema =
     (case comprehension (\<lambda>x. str_in x schema) (map fst config) of Inl e \<Rightarrow> Inl e
      | Inr known \<Rightarrow>
          if \<not> list_all id known then Inr False
          else (case py_getitem schema ''required'' of Inl e \<Rightarrow> Inl e
            | Inr req \<Rightarrow> (case py_iter req of Inl e \<Rightarrow> Inl e
              | Inr xs \<Rightarrow> (case comprehension (\<lambda>x. in_dict x config) xs of Inl e \<Rightarrow> Inl e
                | Inr present \<Rightarrow> if \<not> list_all id present then Inr False else Inr True))))"

text \<open>\<open>tuple(d.items())\<close> followed by insertion into a set: \<open>d\<close> must have \<open>items\<close>, and the
  tuple is hashed, which hashes every value.\<close>

fun items_tuple :: "pyval \<Rightarrow> py_error + (string \<times> pyval) list" where
  "items_tuple (PDict kvs) =
     (if list_all (\<lambda>kv. hashable (snd kv)) kvs then Inr (map (\<lambda>kv. (fst kv, eq_key (snd kv))) kvs)
      else Inl TypeError)"
| "items_tuple (PList _) = Inl AttributeError"
| "items_tuple (PScalar _) = Inl AttributeError"

definition basic_validation_list :: "pyval list \<Rightarrow> py_error + bool" where
  "basic_validation_list config =
     (if list_all hashable config
      then (if length (remdups (map eq_key config)) \<noteq> length config then Inr False else Inr True)
      else (case comprehension items_tuple config of Inl e \<Rightarrow> Inl e
        | Inr ts \<Rightarrow> if length (remdups ts) \<noteq> length config then Inr False else Inr True))"

text \<open>The leaf check \<open>fullmatch(dataSchema["regex"], str(dataContent))\<close>.\<close>

definition leaf_check :: "matcher \<Rightarrow> pyval \<Rightarrow> scalar \<Rightarrow> py_error + bool" where
  "leaf_check fullmatch dataSchema v =
     (case py_getitem dataSchema ''regex'' of Inl e \<Rightarrow> Inl e
      | Inr (PScalar (SStr pat)) \<Rightarrow> fullmatch pat (py_str v)
      | Inr _ \<Rightarrow> Inl TypeError)"

text \<open>
  \<open>basic_validation_caller\<close> with its loop. \<open>validate_dict_items\<close> and
  \<open>validate_list_items\<close> are the \<open>for item in config\<close> loop for a dict and for a list,
  \<open>validate_item\<close> is the loop body after \<open>dataContent\<close>, \<open>dataSchema\<close> and \<open>dataType\<close>
  have been bound. \<open>Inr True\<close> from the body means that the loop goes on. In the leaf
  branch the value is a scalar, since it is an instance of the scalar template's type.
\<close>

function basic_validation_caller :: "matcher \<Rightarrow> pyval \<Rightarrow> pyval \<Rightarrow> pyval \<Rightarrow> py_error + bool"
  and validate_dict_items :: "matcher \<Rightarrow> (string \<times> pyval) list \<Rightarrow> pyval \<Rightarrow> pyval \<Rightarrow> py_error + bool"
  and validate_list_items :: "matcher \<Rightarrow> pyval list \<Rightarrow> pyval \<Rightarrow> pyval \<Rightarrow> py_error + bool"
  and validate_item :: "matcher \<Rightarrow> pyval \<Rightarrow> pyval \<Rightarrow> pyval \<Rightarrow> py_error + bool"
where
  "basic_validation_caller fullmatch (PScalar v) schema types = Inl KeyError"
| "basic_validation_caller fullmatch (PDict config) schema types =
     (case basic_validation_dict config schema of Inl e \<Rightarrow> Inl e
      | Inr ok \<Rightarrow> if \<not> ok then Inr False else validate_dict_items fullmatch config schema types)"
| "basic_validation_caller fullmatch (PList config) schema types =
     (case basic_validation_list config of Inl e \<Rightarrow> Inl e
      | Inr ok \<Rightarrow> if \<not> ok then Inr False else validate_list_items fullmatch config schema types)"
| "validate_dict_items fullmatch [] schema types = Inr True"
| "validate_dict_items fullmatch (item # rest) schema types =
     (case py_getitem schema (fst item) of Inl e \<Rightarrow> Inl e
      | Inr dataSchema \<Rightarrow> (case py_getitem types (fst item) of Inl e \<Rightarrow> Inl e
        | Inr dataType \<Rightarrow> (case validate_item fullmatch (snd item) dataSchema dataType of Inl e \<Rightarrow> Inl e
          | Inr ok \<Rightarrow> if \<not> ok then Inr False else validate_dict_items fullmatch rest schema types)))"
| "validate_list_items fullmatch [] schema types = Inr True"
| "validate_list_items fullmatch (item # rest) schema types =
     (case py_getitem0 schema of Inl e \<Rightarrow> Inl e
      | Inr dataSchema \<Rightarrow> (case py_getitem0 types of Inl e \<Rightarrow> Inl e
        | Inr dataType \<Rightarrow> (case validate_item fullmatch item dataSchema dataType of Inl e \<Rightarrow> Inl e
          | Inr ok \<Rightarrow> if \<not> ok then Inr False else validate_list_items fullmatch rest schema types)))"
| "validate_item fullmatch dataContent dataSchema dataType =
     (if \<not> py_isinstance dataContent dataType then Inr False
      else (case dataType of
          PDict _ \<Rightarrow> basic_validation_caller fullmatch dataContent dataSchema dataType
        | PList _ \<Rightarrow> basic_validation_caller fullmatch dataContent dataSchema dataType
        | PScalar _ \<Rightarrow> (case dataContent of
              PScalar v \<Rightarrow> leaf_check fullmatch dataSchema v
            | _ \<Rightarrow> Inr False)))"
  by pat_completeness auto
termination
  by (relation "measure (\<lambda>x. case x of
        Inl (Inl (_, c, _, _)) \<Rightarrow> 2 * size c
      | Inl (Inr (_, kvs, _, _)) \<Rightarrow> 2 * size (PDict kvs) - 1
      | Inr (Inl (_, xs, _, _)) \<Rightarrow> 2 * size (PList xs) - 1
      | Inr (Inr (_, c, _, _)) \<Rightarrow> 2 * size c + 1)") auto

subsection \<open>Section validators and the orchestrator\<close>

text \<open>
  A section test returns a Python value (the decorated functions below end in \<open>pass\<close> and
  so return \<open>None\<close>). \<open>validate_base key f\<close> is the decorated function \<open>inner\<close>: it returns
  \<open>False\<close> when the generic validator fails on the subtrees under \<open>key\<close> and otherwise
  whatever \<open>f\<close> returns on \<open>config[key]\<close>, passed for all three parameters.
\<close>

type_synonym section_test = "pyval \<Rightarrow> pyval \<Rightarrow> pyval \<Rightarrow> py_error + pyval"

definition validate_base :: "string \<Rightarrow> section_test \<Rightarrow> matcher \<Rightarrow> section_test" where
  "validate_base key f fullmatch config schema types =
     (case py_getitem config key of Inl e \<Rightarrow> Inl e
      | Inr c \<Rightarrow> (case py_getitem schema key of Inl e \<Rightarrow> Inl e
        | Inr s \<Rightarrow> (case py_getitem types key of Inl e \<Rightarrow> Inl e
          | Inr t \<Rightarrow> (case basic_validation_caller fullmatch c s t of Inl e \<Rightarrow> Inl e
            | Inr ok \<Rightarrow> if \<not> ok then Inr (PScalar (SBool False)) else f c c c))))"

text \<open>The body of every decorated test is \<open>pass\<close>.\<close>

definition pass_body :: section_test where
  "pass_body config schema types = Inr (PScalar SNone)"

definition validate_basic :: "matcher \<Rightarrow> section_test" where
  "validate_basic = validate_base ''basic'' pass_body"

definition validate_mrt :: "matcher \<Rightarrow> section_test" where
  "validate_mrt = validate_base ''mrt'' pass_body"

definition validate_prefixes :: "matcher \<Rightarrow> section_test" where
  "validate_prefixes = validate_base ''prefixes'' pass_body"

definition validate_bgp :: "matcher \<Rightarrow> section_test" where
  "validate_bgp = validate_base ''bgp'' pass_body"

definition validate_ospf :: "matcher \<Rightarrow> section_test" where
  "validate_ospf = validate_base ''ospf'' pass_body"

definition validate_device :: "matcher \<Rightarrow> section_test" where
  "validate_device = validate_base ''device'' pass_body"

definition validate_container :: "matcher \<Rightarrow> section_test" where
  "validate_container = validate_base ''container'' pass_body"

definition validate_policy :: "matcher \<Rightarrow> section_test" where
  "validate_policy = validate_base ''policy'' pass_body"

text \<open>The loop of \<open>validateConfig\<close> over the enabled tests, in their order: the first test
  whose result is falsy raises \<open>ConfigValidationTestFailedError\<close> with its description.\<close>

fun run_tests :: "(string \<times> section_test) list \<Rightarrow> pyval \<Rightarrow> pyval \<Rightarrow> pyval \<Rightarrow> py_error + unit" where
  "run_tests [] config schema types = Inr ()"
| "run_tests (test # rest) config schema types =
     (case snd test config schema types of Inl e \<Rightarrow> Inl e
      | Inr r \<Rightarrow> if \<not> py_truthy r then Inl (ConfigValidationTestFailedError (fst test))
                else run_tests rest config schema types)"

definition enabledTests :: "matcher \<Rightarrow> (string \<times> section_test) list" where
  "enabledTests fullmatch = [(''Test to validate basic configuration'', validate_basic fullmatch)]"

definition validateConfig :: "matcher \<Rightarrow> pyval \<Rightarrow> pyval \<Rightarrow> pyval \<Rightarrow> py_error + unit" where
  "validateConfig fullmatch config schema types = run_tests (enabledTests fullmatch) config schema types"

section \<open>The platform compilers (generate\_config.py)\<close>

subsection \<open>Strings and files\<close>

text \<open>\<open>sep.join(xs)\<close> and \<open>s.split(c)\<close> for a one-character separator.\<close>

fun py_join :: "string \<Rightarrow> string list \<Rightarrow> string" where
  "py_join sep [] = []"
| "py_join sep [x] = x"
| "py_join sep (x # y # ys) = x @ sep @ py_join sep (y # ys)"

fun split_acc :: "char \<Rightarrow> string \<Rightarrow> string \<Rightarrow> string list" where
  "split_acc c acc [] = [rev acc]"
| "split_acc c acc (x # xs) =
     (if x = c then rev acc # split_acc c [] xs else split_acc c (x # acc) xs)"

definition py_split :: "char \<Rightarrow> string \<Rightarrow> string list" where
  "py_split c s = split_acc c [] s"

text \<open>
  The state of the disk: the content of the files, by path, and for every path the
  exception that \<open>open(path, "w")\<close> raises in this state, if it raises one
  (\<open>FileNotFoundError\<close> when the directory does not exist, another \<open>OSError\<close> otherwise).
\<close>

record filesystem =
  files :: "string \<rightharpoonup> string"
  open_error :: "string \<Rightarrow> py_error option"

text \<open>\<open>writeConfig\<close> opens \<open>path/fileName\<close> for writing and replaces its content; when the
  file cannot be opened the exception goes to the caller and nothing is written. The
  compilers call it with the default file name.\<close>

definition writeConfig :: "string \<Rightarrow> string \<Rightarrow> string \<Rightarrow> filesystem \<Rightarrow> py_error + filesystem" where
  "writeConfig path config fileName fs =
     (case open_error fs (path @ ''/'' @ fileName) of
        Some e \<Rightarrow> Inl e
      | None \<Rightarrow> Inr (fs\<lparr>files := (files fs)(path @ ''/'' @ fileName \<mapsto> config)\<rparr>))"

definition default_fileName :: string where
  "default_fileName = ''config.txt''"

subsection \<open>Routes\<close>

text \<open>
  Modelled from the spec: the \<open>Route\<close> class of \<open>jargen.objects\<close> is not among the sources.
  A route has a network (an IPv4 or IPv6 prefix), an AS path (an ordered sequence of AS
  numbers), communities (a set or a sequence of community strings) and an origin (a
  string). The type of the network is left open; what the compilers use of a network are
  its two renderings, which are parameters of a run (see \<open>runtime\<close> below).
\<close>

datatype communities = CommSeq "string list" | CommSet "string set"

record 'n route =
  network :: 'n
  aspath :: "nat list"
  communities :: communities
  origin :: string

text \<open>
  What a run of the program takes from the Python runtime. \<open>set_order\<close> is the order in
  which the run traverses a set: Python leaves it open, and for sets of strings it
  changes from one run to the next. \<open>str_network\<close> is \<open>str(network)\<close> and \<open>with_netmask\<close> the
  attribute \<open>network.with_netmask\<close>, both of the \<open>ipaddress\<close> module of the standard library.
\<close>

record 'n runtime =
  set_order :: "string set \<Rightarrow> string list"
  str_network :: "'n \<Rightarrow> string"
  with_netmask :: "'n \<Rightarrow> string"

text \<open>Iterating over \<open>route.communities\<close> (as \<open>join\<close> does), and its truth value.\<close>

fun iter_communities :: "'n runtime \<Rightarrow> communities \<Rightarrow> string list" where
  "iter_communities env (CommSeq xs) = xs"
| "iter_communities env (CommSet S) = set_order env S"

fun communities_truthy :: "communities \<Rightarrow> bool" where
  "communities_truthy (CommSeq xs) = (xs \<noteq> [])"
| "communities_truthy (CommSet S) = (S \<noteq> {})"

text \<open>Modelled from the spec: the property \<open>aspath_as_str\<close> of \<open>Route\<close> is not among the
  sources; it is the AS path with every AS number rendered as a string.\<close>

definition aspath_as_str :: "'n route \<Rightarrow> string list" where
  "aspath_as_str r = map string_of_nat (aspath r)"

text \<open>
  IPv4 networks, given by the 32-bit network address and the prefix length, with the two
  renderings as the \<open>ipaddress\<close> module gives them: \<open>ipv4_str\<close> such as \<open>10.0.0.0/24\<close> and
  \<open>ipv4_with_netmask\<close> such as \<open>10.0.0.0/255.255.255.0\<close>.
\<close>

record ipv4network =
  network_address :: nat
  prefixlen :: nat

definition dotted_quad :: "nat \<Rightarrow> string" where
  "dotted_quad a =
     py_join ''.'' (map string_of_nat
       [a div 16777216 mod 256, a div 65536 mod 256, a div 256 mod 256, a mod 256])"

definition netmask :: "nat \<Rightarrow> nat" where
  "netmask len = 2 ^ 32 - 2 ^ (32 - len)"

definition ipv4_str :: "ipv4network \<Rightarrow> string" where
  "ipv4_str n = dotted_quad (network_address n) @ ''/'' @ string_of_nat (prefixlen n)"

definition ipv4_with_netmask :: "ipv4network \<Rightarrow> string" where
  "ipv4_with_netmask n =
     dotted_quad (network_address n) @ ''/'' @ dotted_quad (netmask (prefixlen n))"

subsection \<open>IOS\<close>

text \<open>The grouping key of a route, as \<open>config_ios\<close> builds it.\<close>

type_synonym policy_key = "string \<times> string \<times> string"

definition route_key :: "'n runtime \<Rightarrow> 'n route \<Rightarrow> policy_key" where
  "route_key env r =
     (py_join '' '' (aspath_as_str r), py_join '' '' (iter_communities env (communities r)),
      origin r)"

text \<open>\<open>d[k].append(v)\<close> on a \<open>defaultdict(list)\<close>, kept as an association list in
  insertion order: a new key goes to the end with the one-element list, a known key
  keeps its place. \<open>dd_get\<close> is \<open>d[k]\<close>.\<close>

fun dd_append :: "('k \<times> 'v list) list \<Rightarrow> 'k \<Rightarrow> 'v \<Rightarrow> ('k \<times> 'v list) list" where
  "dd_append [] k v = [(k, [v])]"
| "dd_append (kv # d) k v =
     (if fst kv = k then (fst kv, snd kv @ [v]) # d else kv # dd_append d k v)"

definition dd_get :: "('k \<times> 'v list) list \<Rightarrow> 'k \<Rightarrow> 'v list" where
  "dd_get d k = (case map_of d k of None \<Rightarrow> [] | Some vs \<Rightarrow> vs)"

definition routeDict :: "'n runtime \<Rightarrow> 'n route list \<Rightarrow> (policy_key \<times> 'n list) list" where
  "routeDict env routes = foldl (\<lambda>d r. dd_append d (route_key env r) (network r)) [] routes"

definition ios_static_route :: "'n runtime \<Rightarrow> string \<Rightarrow> 'n route \<Rightarrow> string" where
  "ios_static_route env baseRouteCommand r =
     baseRouteCommand @ '' ''
       @ py_join '' '' (py_split CHR ''/'' (with_netmask env (network r))) @ '' null0''"

definition ios_prefix_entry :: "'n runtime \<Rightarrow> string \<Rightarrow> nat \<times> 'n \<Rightarrow> string" where
  "ios_prefix_entry env prefixListName e =
     ''ip prefix-list '' @ prefixListName @ '' seq '' @ string_of_nat (fst e + 1)
       @ '' permit '' @ str_network env (snd e)"

text \<open>The three conditional \<open>set\<close> lines of a route-map clause (an empty string where the
  line is left out), and the lines appended when \<open>localAS\<close> is positive.\<close>

definition ios_set_lines :: "policy_key \<Rightarrow> string list" where
  "ios_set_lines v =
     [(if fst v \<noteq> [] then ''  set as-path prepend '' @ fst v else []),
      (if fst (snd v) \<noteq> [] then ''  set community add '' @ fst (snd v) else []),
      (if snd (snd v) \<noteq> ''igp'' then ''  set origin '' @ snd (snd v) else [])]"

definition ios_redistribute_lines :: "int \<Rightarrow> string list" where
  "ios_redistribute_lines localAS =
     (if localAS > 0
      then [''router bgp '' @ string_of_int localAS, ''redistribute static route-map ROUTEGEN-RM'']
      else [])"

text \<open>The lines appended for one key of \<open>routeDict\<close>: the body of the loop over
  \<open>enumerate(routeDict)\<close>.\<close>

definition ios_group_lines ::
  "'n runtime \<Rightarrow> int \<Rightarrow> (policy_key \<times> 'n list) list \<Rightarrow> nat \<times> policy_key \<Rightarrow> string list" where
  "ios_group_lines env localAS d e =
     (let index = fst e; v = snd e;
          prefixListName = ''ROUTEGEN-PL'' @ string_of_nat (index + 1)
      in map (ios_prefix_entry env prefixListName) (List.enumerate 0 (dd_get d v))
         @ [''route-map ROUTEGEN-RM permit '' @ string_of_nat (index + 1),
            ''  match ip address prefix-list '' @ prefixListName]
         @ ios_set_lines v
         @ ios_redistribute_lines localAS)"

text \<open>The list \<open>config\<close> at the end of \<open>config_ios\<close>, the text written, and the call.\<close>

definition config_ios_lines :: "'n runtime \<Rightarrow> 'n route list \<Rightarrow> int \<Rightarrow> string \<Rightarrow> string list" where
  "config_ios_lines env routes localAS vrf =
     (let baseRouteCommand = (if vrf \<noteq> [] then ''ip route vrf '' @ vrf else ''ip route'');
          d = routeDict env routes
      in map (ios_static_route env baseRouteCommand) routes
         @ concat (map (ios_group_lines env localAS d) (List.enumerate 0 (map fst d))))"

definition config_ios_text :: "'n runtime \<Rightarrow> 'n route list \<Rightarrow> int \<Rightarrow> string \<Rightarrow> string" where
  "config_ios_text env routes localAS vrf =
     py_join [CHR 0x0A] (filter (\<lambda>x. x \<noteq> []) (config_ios_lines env routes localAS vrf))"

definition config_ios ::
  "'n runtime \<Rightarrow> 'n route list \<Rightarrow> string \<Rightarrow> int \<Rightarrow> string \<Rightarrow> filesystem \<Rightarrow> py_error + filesystem" where
  "config_ios env routes path localAS vrf fs =
     writeConfig path (config_ios_text env routes localAS vrf) default_fileName fs"

subsection \<open>IOS-XR\<close>

definition config_iosxr :: "py_error + unit" where
  "config_iosxr = Inl NotImplementedError"

subsection \<open>Junos\<close>

definition junos_route_command :: "'n runtime \<Rightarrow> string \<Rightarrow> 'n route \<Rightarrow> string" where
  "junos_route_command env baseRouteCommand r =
     baseRouteCommand @ '' '' @ str_network env (network r) @ '' discard''
       @ (if communities_truthy (communities r)
          then '' community [ '' @ py_join '' '' (iter_communities env (communities r)) @ '' ]''
          else [])
       @ (if aspath r \<noteq> []
          then '' as-path path '' @ [CHR 0x22] @ py_join '' '' (aspath_as_str r) @ [CHR 0x22] else [])
       @ (if origin r \<noteq> ''igp'' then '' as-path origin '' @ origin r else [])"

text \<open>The local variables \<open>config\<close> and \<open>command\<close> of \<open>config_junos\<close>.\<close>

record junos_locals =
  config :: "string list"
  command :: string

definition junos_route_step :: "'n runtime \<Rightarrow> string \<Rightarrow> junos_locals \<Rightarrow> 'n route \<Rightarrow> junos_locals" where
  "junos_route_step env baseRouteCommand st r =
     (let c = junos_route_command env baseRouteCommand r
      in \<lparr>config = config st @ [c], command = c\<rparr>)"

definition basePolicyCommand :: string where
  "basePolicyCommand = ''set policy-options policy-statement ROUTEGEN-POLICY term 1''"

text \<open>The locals just before the call of \<open>writeConfig\<close>.\<close>

definition config_junos_locals :: "'n runtime \<Rightarrow> 'n route list \<Rightarrow> string \<Rightarrow> string \<Rightarrow> junos_locals" where
  "config_junos_locals env routes vrf bgpGroup =
     (let baseCommand = (if vrf \<noteq> [] then ''set routing-instances '' @ vrf else ''set'');
          baseRouteCommand = py_join '' '' [baseCommand, ''routing-options static route''];
          st1 = foldl (junos_route_step env baseRouteCommand) \<lparr>config = [], command = []\<rparr> routes;
          st2 = st1\<lparr>config := config st1 @ [basePolicyCommand @ '' from protocol static'']\<rparr>;
          st3 = st2\<lparr>config := config st2 @ [basePolicyCommand @ '' then accept'']\<rparr>
      in if bgpGroup \<noteq> []
         then st3\<lparr>command := command st3 @ baseCommand @ '' protocols bgp group '' @ bgpGroup
                                  @ '' export ROUTEGEN-POLICY''\<rparr>
         else st3)"

definition config_junos_text :: "'n runtime \<Rightarrow> 'n route list \<Rightarrow> string \<Rightarrow> string \<Rightarrow> string" where
  "config_junos_text env routes vrf bgpGroup =
     py_join [CHR 0x0A] (config (config_junos_locals env routes vrf bgpGroup))"

definition config_junos ::
  "'n runtime \<Rightarrow> 'n route list \<Rightarrow> string \<Rightarrow> string \<Rightarrow> string \<Rightarrow> filesystem \<Rightarrow> py_error + filesystem" where
  "config_junos env routes path vrf bgpGroup fs =
     writeConfig path (config_junos_text env routes vrf bgpGroup) default_fileName fs"

subsection \<open>The dispatch table\<close>

datatype compiler = Config_ios | Config_junos | Config_container

definition platforms :: "(string \<times> compiler) list" where
  "platforms = [(''ios'', Config_ios), (''junos'', Config_junos), (''container'', Config_container)]"

text \<open>\<open>platforms[name]\<close>.\<close>

definition platforms_getitem :: "string \<Rightarrow> py_error + compiler" where
  "platforms_getitem name = (case map_of platforms name of None \<Rightarrow> Inl KeyError | Some c \<Rightarrow> Inr c)"

section \<open>Example inputs\<close>

text \<open>A configuration whose \<open>basic\<close> section has the one required key \<open>hostname\<close>, with
  its schema and types documents.\<close>

definition basic_config :: pyval where
  "basic_config = PDict [(''basic'', PDict [(''hostname'', PScalar (SStr ''r1''))])]"

definition basic_schema :: pyval where
  "basic_schema =
     PDict [(''basic'', PDict [(''required'', PList [PScalar (SStr ''hostname'')]),
                              (''hostname'', PDict [(''regex'', PScalar (SStr ''r1''))])])]"

definition basic_types :: pyval where
  "basic_types = PDict [(''basic'', PDict [(''hostname'', PScalar (SStr ''name''))])]"

text \<open>Two runs over IPv4 networks that traverse a set of strings in ascending and in
  descending order.\<close>

definition ascending_run :: "ipv4network runtime" where
  "ascending_run =
     \<lparr>set_order = sorted_list_of_set, str_network = ipv4_str, with_netmask = ipv4_with_netmask\<rparr>"

definition descending_run :: "ipv4network runtime" where
  "descending_run =
     \<lparr>set_order = (\<lambda>S. rev (sorted_list_of_set S)), str_network = ipv4_str,
      with_netmask = ipv4_with_netmask\<rparr>"

text \<open>The two routes of Scenario 1: 10.0.0.0/24 and 10.0.1.0/24, both with empty AS path,
  no communities and origin \<open>igp\<close>.\<close>

definition scenario1_routes :: "ipv4network route list" where
  "scenario1_routes =
     [\<lparr>network = \<lparr>network_address = 167772160, prefixlen = 24\<rparr>,
        aspath = [], communities = CommSeq [], origin = ''igp''\<rparr>,
      \<lparr>network = \<lparr>network_address = 167772416, prefixlen = 24\<rparr>,
        aspath = [], communities = CommSeq [], origin = ''igp''\<rparr>]"

text \<open>Three routes in two policy groups: the second and the third share AS path,
  communities and origin.\<close>

definition example_routes :: "ipv4network route list" where
  "example_routes =
     [\<lparr>network = \<lparr>network_address = 167772160, prefixlen = 24\<rparr>,
        aspath = [], communities = CommSeq [], origin = ''igp''\<rparr>,
      \<lparr>network = \<lparr>network_address = 167772416, prefixlen = 24\<rparr>,
        aspath = [65000, 65001], communities = CommSeq [''65000:100'', ''65000:200''],
        origin = ''egp''\<rparr>,
      \<lparr>network = \<lparr>network_address = 167772672, prefixlen = 24\<rparr>,
        aspath = [65000, 65001], communities = CommSeq [''65000:100'', ''65000:200''],
        origin = ''egp''\<rparr>]"

text \<open>A route whose single community string contains a space, and the route with the two
  communities that this string joins.\<close>

definition spaced_route :: "ipv4network route" where
  "spaced_route =
     \<lparr>network = \<lparr>network_address = 167772160, prefixlen = 24\<rparr>,
      aspath = [], communities = CommSeq [''65000:100 65000:200''], origin = ''igp''\<rparr>"

definition split_route :: "ipv4network route" where
  "split_route =
     \<lparr>network = \<lparr>network_address = 167772416, prefixlen = 24\<rparr>,
      aspath = [], communities = CommSeq [''65000:100'', ''65000:200''], origin = ''igp''\<rparr>"

text \<open>Two routes to one network that differ in their origin.\<close>

definition same_network_routes :: "ipv4network route list" where
  "same_network_routes =
     [\<lparr>network = \<lparr>network_address = 167772160, prefixlen = 24\<rparr>,
        aspath = [], communities = CommSeq [], origin = ''igp''\<rparr>,
      \<lparr>network = \<lparr>network_address = 167772160, prefixlen = 24\<rparr>,
        aspath = [], communities = CommSeq [], origin = ''egp''\<rparr>]"

text \<open>A route whose communities are a set of two strings.\<close>

definition set_route :: "ipv4network route" where
  "set_route =
     \<lparr>network = \<lparr>network_address = 167772160, prefixlen = 24\<rparr>,
      aspath = [], communities = CommSet {''65000:100'', ''65000:200''}, origin = ''igp''\<rparr>"

text \<open>A disk on which every file can be opened for writing, and one on which no directory
  exists.\<close>

definition writable_disk :: filesystem where
  "writable_disk = \<lparr>files = Map.empty, open_error = (\<lambda>p. None)\<rparr>"

definition empty_disk :: filesystem where
  "empty_disk = \<lparr>files = Map.empty, open_error = (\<lambda>p. Some FileNotFoundError)\<rparr>"

section \<open>Notions used in the properties\<close>

text \<open>A line that opens a route-map clause of the generated policy.\<close>

definition route_map_clause_prefix :: string where
  "route_map_clause_prefix = ''route-map ROUTEGEN-RM permit ''"

definition is_route_map_clause :: "string \<Rightarrow> bool" where
  "is_route_map_clause l = (take (length route_map_clause_prefix) l = route_map_clause_prefix)"

text \<open>The distinct elements of a list in the order of their first occurrence.\<close>

definition first_seen :: "'a list \<Rightarrow> 'a list" where
  "first_seen xs = rev (remdups (rev xs))"

text \<open>The policy attributes of a route; communities that are a sequence; lists of non-empty
  strings without a space.\<close>

definition policy_triple :: "'n route \<Rightarrow> nat list \<times> communities \<times> string" where
  "policy_triple r = (aspath r, communities r, origin r)"

fun is_sequence :: "communities \<Rightarrow> bool" where
  "is_sequence (CommSeq xs) = True"
| "is_sequence (CommSet S) = False"

definition plain_words :: "string list \<Rightarrow> bool" where
  "plain_words ws = (\<forall>w\<in>set ws. w \<noteq> [] \<and> CHR '' '' \<notin> set w)"

fun plain_sequence :: "communities \<Rightarrow> bool" where
  "plain_sequence (CommSeq xs) = plain_words xs"
| "plain_sequence (CommSet S) = False"

section \<open>Properties\<close>

subsection \<open>The orchestrator\<close>

lemma validate_base_pass_body_falsy:
  "validate_base key pass_body fm c s t = Inr r \<Longrightarrow> \<not> py_truthy r"
  by (auto simp: validate_base_def pass_body_def split: sum.splits if_splits)

lemma validateConfig_never_returns: "validateConfig fm c s t \<noteq> Inr ()"
  by (auto simp: validateConfig_def enabledTests_def validate_basic_def
      split: sum.splits dest: validate_base_pass_body_falsy)

text \<open>
  C1. The claim: whenever the \<open>basic\<close> subtree passes the generic validator, \<open>validateConfig\<close>
  returns normally. The code does not: the decorated test \<open>validate_basic\<close> ends in \<open>pass\<close>, so
  after a successful generic validation it returns \<open>None\<close>, which the orchestrator takes for
  a failure. On the example documents the generic validator accepts the \<open>basic\<close> subtree and
  \<open>validateConfig\<close> raises \<open>ConfigValidationTestFailedError\<close>.
\<close>

theorem validateConfig_raises_on_valid_basic:
  "basic_validation_caller literal_fullmatch
      (PDict [(''hostname'', PScalar (SStr ''r1''))])
      (PDict [(''required'', PList [PScalar (SStr ''hostname'')]),
              (''hostname'', PDict [(''regex'', PScalar (SStr ''r1''))])])
      (PDict [(''hostname'', PScalar (SStr ''name''))]) = Inr True
   \<and> validateConfig literal_fullmatch basic_config basic_schema basic_types
       = Inl (ConfigValidationTestFailedError ''Test to validate basic configuration'')"
  by (simp add: validateConfig_def enabledTests_def validate_basic_def validate_base_def
      pass_body_def basic_config_def basic_schema_def basic_types_def
      basic_validation_dict_def leaf_check_def literal_fullmatch_def)

subsection \<open>Junos\<close>

text \<open>
  C2. The claim: with a non-empty \<open>bgpGroup\<close> the Junos text contains one export-policy
  attachment statement after the route and policy lines. The code appends that statement
  to the local \<open>command\<close>, not to \<open>config\<close>, so it never reaches the file: the call does what
  it does for an empty \<open>bgpGroup\<close>, and for no routes and group \<open>PEERS\<close> the text is the two
  policy lines only.
\<close>

theorem config_junos_never_attaches:
  "config_junos env routes path vrf bgpGroup fs = config_junos env routes path vrf [] fs
   \<and> config_junos_text env [] [] ''PEERS'' =
       ''set policy-options policy-statement ROUTEGEN-POLICY term 1 from protocol static''
       @ [CHR 0x0A] @ ''set policy-options policy-statement ROUTEGEN-POLICY term 1 then accept''"
  by (simp add: config_junos_def config_junos_text_def config_junos_locals_def Let_def
      basePolicyCommand_def)

subsection \<open>Evaluating decimal renderings\<close>

lemma string_of_nat_numeral [simp]:
  "string_of_nat (numeral k) =
     (if (numeral k :: nat) < 10 then [digit_char (numeral k)]
      else string_of_nat (numeral k div 10) @ [digit_char (numeral k mod 10)])"
  by (rule string_of_nat.simps)

lemma string_of_nat_0 [simp]: "string_of_nat 0 = ''0''"
  by (simp add: string_of_nat.simps digit_char_def)

lemma string_of_nat_1 [simp]: "string_of_nat (Suc 0) = ''1''"
  by (simp add: string_of_nat.simps digit_char_def)

lemma string_of_nat_2 [simp]: "string_of_nat (Suc (Suc 0)) = ''2''"
  by (simp add: string_of_nat.simps digit_char_def eval_nat_numeral)

subsection \<open>Leaves of the validator\<close>

text \<open>
  C3. The claim: at a leaf the verdict is true iff the string form of the value fully matches
  the regex carried by the leaf of the types tree, not one stored in the schema tree. The
  code reads the pattern from the schema node: with the types tree and the value fixed,
  the verdict follows the schema's \<open>regex\<close>. Below, the value \<open>65000\<close> is accepted although
  the types leaf is \<open>65001\<close>, and refused although the types leaf is \<open>65000\<close>.
\<close>

theorem leaf_regex_not_from_types_counterexample:
 "basic_validation_caller literal_fullmatch (PDict [(''asn'', PScalar (SStr ''65000''))])
     (PDict [(''required'', PList []), (''asn'', PDict [(''regex'', PScalar (SStr ''65000''))])])
     (PDict [(''asn'', PScalar (SStr ''65001''))]) = Inr True
  \<and> basic_validation_caller literal_fullmatch (PDict [(''asn'', PScalar (SStr ''65000''))])
     (PDict [(''required'', PList []), (''asn'', PDict [(''regex'', PScalar (SStr ''65001''))])])
     (PDict [(''asn'', PScalar (SStr ''65000''))]) = Inr False"
  by (simp add: basic_validation_dict_def leaf_check_def literal_fullmatch_def)

text \<open>
  C3, amended. At a leaf position (the types node is a scalar), a value that is an instance of
  the type of the types node is a scalar, and the verdict is the result of matching its string
  form against the pattern stored under \<open>regex\<close> in the schema node; the types node
  contributes its runtime type only.
\<close>

theorem leaf_verdict_from_schema_regex:
  "py_isinstance dataContent (PScalar t) \<Longrightarrow>
   py_getitem dataSchema ''regex'' = Inr (PScalar (SStr pat)) \<Longrightarrow>
   \<exists>v. dataContent = PScalar v
     \<and> validate_item fm dataContent dataSchema (PScalar t) = fm pat (py_str v)"
  by (cases dataContent) (simp_all add: leaf_check_def)

theorem leaf_verdict_from_schema_regex_witness:
  "py_isinstance (PScalar (SInt 65000)) (PScalar (SInt 0))
   \<and> py_getitem (PDict [(''regex'', PScalar (SStr ''65000''))]) ''regex'' = Inr (PScalar (SStr ''65000''))
   \<and> validate_item literal_fullmatch (PScalar (SInt 65000)) (PDict [(''regex'', PScalar (SStr ''65000''))])
        (PScalar (SInt 0)) = Inr True"
  using leaf_verdict_from_schema_regex [of "PScalar (SInt 65000)" "SInt 0"
      "PDict [(''regex'', PScalar (SStr ''65000''))]" "''65000''" literal_fullmatch]
  by (simp add: literal_fullmatch_def string_of_int_def digit_char_def)

text \<open>
  C4. The claim: at a scalar leaf the verdict depends only on the string form of the value,
  whatever its native type. The code first requires the value to be an instance of the type
  of the types node: the integer \<open>65000\<close> and the string \<open>65000\<close> have the same string form,
  and against a string template and the same schema leaf the first is refused and the second
  accepted.
\<close>

theorem leaf_verdict_native_type_counterexample:
 "py_str (SInt 65000) = py_str (SStr ''65000'')
  \<and> basic_validation_caller literal_fullmatch (PDict [(''asn'', PScalar (SInt 65000))])
     (PDict [(''required'', PList []), (''asn'', PDict [(''regex'', PScalar (SStr ''65000''))])])
     (PDict [(''asn'', PScalar (SStr ''0''))]) = Inr False
  \<and> basic_validation_caller literal_fullmatch (PDict [(''asn'', PScalar (SStr ''65000''))])
     (PDict [(''required'', PList []), (''asn'', PDict [(''regex'', PScalar (SStr ''65000''))])])
     (PDict [(''asn'', PScalar (SStr ''0''))]) = Inr True"
  by (simp add: basic_validation_dict_def leaf_check_def literal_fullmatch_def string_of_int_def
      digit_char_def)

text \<open>
  C4, amended. At a scalar leaf the regex check depends only on the string form of the value:
  two values with equal string form, whatever their native types, get the same result from
  the check against the same schema leaf, and the same verdict when each is an instance
  of the type of its types node. The verdict at the leaf is the result of that check for a
  value that is an instance of the type of the types node, and \<open>False\<close>, before any match,
  for a value that is not.
\<close>

theorem leaf_verdict_str_and_type:
  "(py_str v1 = py_str v2 \<longrightarrow> leaf_check fm s v1 = leaf_check fm s v2)
   \<and> (py_str v1 = py_str v2 \<and> py_isinstance (PScalar v1) (PScalar t1)
        \<and> py_isinstance (PScalar v2) (PScalar t2)
      \<longrightarrow> validate_item fm (PScalar v1) s (PScalar t1) = validate_item fm (PScalar v2) s (PScalar t2))
   \<and> validate_item fm (PScalar v) s (PScalar t)
       = (if py_isinstance (PScalar v) (PScalar t) then leaf_check fm s v else Inr False)"
proof (intro conjI impI)
  show "leaf_check fm s v1 = leaf_check fm s v2" if "py_str v1 = py_str v2"
    using that by (simp add: leaf_check_def split: sum.splits pyval.splits scalar.splits)
  show "validate_item fm (PScalar v1) s (PScalar t1) = validate_item fm (PScalar v2) s (PScalar t2)"
    if "py_str v1 = py_str v2 \<and> py_isinstance (PScalar v1) (PScalar t1)
        \<and> py_isinstance (PScalar v2) (PScalar t2)"
    using that by (simp add: leaf_check_def split: sum.splits pyval.splits scalar.splits)
  show "validate_item fm (PScalar v) s (PScalar t)
       = (if py_isinstance (PScalar v) (PScalar t) then leaf_check fm s v else Inr False)"
    by simp
qed

theorem leaf_verdict_str_and_type_witness:
  "py_str (SInt 65000) = py_str (SStr ''65000'')
   \<and> py_isinstance (PScalar (SInt 65000)) (PScalar (SInt 0))
   \<and> py_isinstance (PScalar (SStr ''65000'')) (PScalar (SStr ''asn''))
   \<and> leaf_check literal_fullmatch (PDict [(''regex'', PScalar (SStr ''65000''))]) (SInt 65000)
       = leaf_check literal_fullmatch (PDict [(''regex'', PScalar (SStr ''65000''))]) (SStr ''65000'')
   \<and> validate_item literal_fullmatch (PScalar (SInt 65000))
         (PDict [(''regex'', PScalar (SStr ''65000''))]) (PScalar (SInt 0)) = Inr True
   \<and> validate_item literal_fullmatch (PScalar (SStr ''65000''))
         (PDict [(''regex'', PScalar (SStr ''65000''))]) (PScalar (SStr ''asn'')) = Inr True
   \<and> validate_item literal_fullmatch (PScalar (SInt 65000))
         (PDict [(''regex'', PScalar (SStr ''65000''))]) (PScalar (SStr ''asn'')) = Inr False"
  using leaf_verdict_str_and_type [of "SInt 65000" "SStr ''65000''" literal_fullmatch
      "PDict [(''regex'', PScalar (SStr ''65000''))]" "SInt 0" "SStr ''asn''" "SInt 65000" "SStr ''asn''"]
  by (simp add: leaf_check_def literal_fullmatch_def string_of_int_def digit_char_def)

subsection \<open>Duplicates in sequences\<close>

text \<open>
  C5. The claim: a sequence with two mappings that have the same key/value pairs, in whatever
  key order, is refused. The code compares \<open>tuple(d.items())\<close>, which keeps the key order: the
  two mappings below hold the same pairs in different order and the sequence is accepted;
  with the same pairs in the same order it is refused.
\<close>

theorem reordered_duplicate_mappings_accepted:
  "basic_validation_caller literal_fullmatch
     (PList [PDict [(''peer'', PScalar (SStr ''a'')), (''asn'', PScalar (SStr ''1''))],
             PDict [(''asn'', PScalar (SStr ''1'')), (''peer'', PScalar (SStr ''a''))]])
     (PList [PDict [(''required'', PList []), (''peer'', PDict [(''regex'', PScalar (SStr ''a''))]),
                    (''asn'', PDict [(''regex'', PScalar (SStr ''1''))])]])
     (PList [PDict [(''peer'', PScalar (SStr ''x'')), (''asn'', PScalar (SStr ''x''))]]) = Inr True
   \<and> basic_validation_caller literal_fullmatch
     (PList [PDict [(''peer'', PScalar (SStr ''a'')), (''asn'', PScalar (SStr ''1''))],
             PDict [(''peer'', PScalar (SStr ''a'')), (''asn'', PScalar (SStr ''1''))]])
     (PList [PDict [(''required'', PList []), (''peer'', PDict [(''regex'', PScalar (SStr ''a''))]),
                    (''asn'', PDict [(''regex'', PScalar (SStr ''1''))])]])
     (PList [PDict [(''peer'', PScalar (SStr ''x'')), (''asn'', PScalar (SStr ''x''))]]) = Inr False"
  by (simp add: basic_validation_list_def basic_validation_dict_def leaf_check_def
      literal_fullmatch_def)

subsection \<open>Mappings and the \<open>required\<close> entry\<close>

lemma comprehension_total: "comprehension (\<lambda>x. Inr (f x)) xs = Inr (map f xs)"
  by (induction xs) simp_all

lemma required_all_present:
  "\<forall>x\<in>set req. \<exists>k. x = PScalar (SStr k) \<and> k \<in> set (map fst c) \<Longrightarrow>
   comprehension (\<lambda>x. in_dict x c) req = Inr (map (\<lambda>x. True) req)"
  by (induction req) force+

text \<open>
  C10. The claim: for every mapping value whose schema node lacks \<open>required\<close> the validator
  raises \<open>KeyError\<close> instead of returning a boolean. The code checks for unknown keys first
  and returns \<open>False\<close> there without reading \<open>required\<close>: the schema node below is empty,
  so it has no \<open>required\<close>, and the validator returns \<open>False\<close>.
\<close>

theorem missing_required_counterexample:
  "map_of ([] :: (string \<times> pyval) list) ''required'' = None
   \<and> basic_validation_caller literal_fullmatch (PDict [(''hostname'', PScalar (SStr ''r1''))])
        (PDict []) (PDict []) = Inr False"
  by (simp add: basic_validation_dict_def)

text \<open>
  C10, amended. For a mapping value and a mapping schema node: if every key of the value is a
  key of the schema node and the schema node lacks \<open>required\<close>, the validator raises
  \<open>KeyError\<close>; if some key of the value is not a key of the schema node, it returns \<open>False\<close>
  (and \<open>required\<close> is not read). Since \<open>required\<close> is itself a key of the schema node, a value
  that has a key named \<open>required\<close> passes the mapping check when its keys are schema keys and
  the required keys are present.
\<close>

theorem required_read_after_key_check:
  "(map_of s ''required'' = None \<and> set (map fst c) \<subseteq> set (map fst s)
      \<longrightarrow> basic_validation_caller fm (PDict c) (PDict s) t = Inl KeyError)
   \<and> (\<not> set (map fst c) \<subseteq> set (map fst s)
      \<longrightarrow> basic_validation_caller fm (PDict c) (PDict s) t = Inr False)
   \<and> (map_of s ''required'' = Some (PList req) \<and> set (map fst c) \<subseteq> set (map fst s)
        \<and> ''required'' \<in> set (map fst c)
        \<and> (\<forall>x\<in>set req. \<exists>k. x = PScalar (SStr k) \<and> k \<in> set (map fst c))
      \<longrightarrow> basic_validation_dict c (PDict s) = Inr True)"
proof (intro conjI impI)
  assume "map_of s ''required'' = None \<and> set (map fst c) \<subseteq> set (map fst s)"
  then show "basic_validation_caller fm (PDict c) (PDict s) t = Inl KeyError"
    by (auto simp: basic_validation_dict_def comprehension_total list_all_iff)
next
  assume "\<not> set (map fst c) \<subseteq> set (map fst s)"
  then show "basic_validation_caller fm (PDict c) (PDict s) t = Inr False"
    by (auto simp: basic_validation_dict_def comprehension_total list_all_iff)
next
  assume a: "map_of s ''required'' = Some (PList req) \<and> set (map fst c) \<subseteq> set (map fst s)
        \<and> ''required'' \<in> set (map fst c)
        \<and> (\<forall>x\<in>set req. \<exists>k. x = PScalar (SStr k) \<and> k \<in> set (map fst c))"
  then have "comprehension (\<lambda>x. in_dict x c) req = Inr (map (\<lambda>x. True) req)"
    by (intro required_all_present) simp
  with a show "basic_validation_dict c (PDict s) = Inr True"
    by (auto simp: basic_validation_dict_def comprehension_total list_all_iff)
qed

theorem required_read_after_key_check_witness:
  "(map_of [(''hostname'', PDict [])] ''required'' = None
      \<and> set (map fst [(''hostname'', PScalar (SStr ''r1''))]) \<subseteq> set (map fst [(''hostname'', PDict [])])
      \<and> basic_validation_caller literal_fullmatch (PDict [(''hostname'', PScalar (SStr ''r1''))])
            (PDict [(''hostname'', PDict [])]) (PDict []) = Inl KeyError)
   \<and> (\<not> set (map fst [(''hostname'', PScalar (SStr ''r1''))]) \<subseteq> set (map fst ([] :: (string \<times> pyval) list))
      \<and> basic_validation_caller literal_fullmatch (PDict [(''hostname'', PScalar (SStr ''r1''))])
            (PDict []) (PDict []) = Inr False)
   \<and> (map_of [(''required'', PList [PScalar (SStr ''required'')])] ''required''
          = Some (PList [PScalar (SStr ''required'')])
      \<and> set (map fst [(''required'', PScalar (SStr ''r1''))])
          \<subseteq> set (map fst [(''required'', PList [PScalar (SStr ''required'')])])
      \<and> ''required'' \<in> set (map fst [(''required'', PScalar (SStr ''r1''))])
      \<and> list_all (\<lambda>x. \<exists>k. x = PScalar (SStr k)
            \<and> k \<in> set (map fst [(''required'', PScalar (SStr ''r1''))])) [PScalar (SStr ''required'')]
      \<and> basic_validation_dict [(''required'', PScalar (SStr ''r1''))]
            (PDict [(''required'', PList [PScalar (SStr ''required'')])]) = Inr True)"
  using required_read_after_key_check [of "[(''hostname'', PDict [])]"
      "[(''hostname'', PScalar (SStr ''r1''))]" literal_fullmatch "PDict []" "[]"]
    required_read_after_key_check [of "[]" "[(''hostname'', PScalar (SStr ''r1''))]"
      literal_fullmatch "PDict []" "[]"]
    required_read_after_key_check [of "[(''required'', PList [PScalar (SStr ''required'')])]"
      "[(''required'', PScalar (SStr ''r1''))]" literal_fullmatch "PDict []"
      "[PScalar (SStr ''required'')]"]
  by simp

subsection \<open>IOS: Scenario 1\<close>

text \<open>
  C7. Compiling the two routes of Scenario 1 for IOS without \<open>localAS\<close> (the default \<open>-1\<close>) and
  without \<open>vrf\<close> gives exactly six lines: two static routes to \<open>null0\<close>, one prefix-list with
  the entries \<open>seq 1\<close> and \<open>seq 2\<close>, and one route-map clause with the prefix-list match only;
  no \<open>set\<close> clause, no \<open>router bgp\<close> and no \<open>redistribute\<close> line.
\<close>

theorem scenario1_ios:
  "config_ios_text \<lparr>set_order = so, str_network = ipv4_str, with_netmask = ipv4_with_netmask\<rparr>
      scenario1_routes (- 1) [] =
     ''ip route 10.0.0.0 255.255.255.0 null0'' @ [CHR 0x0A]
     @ ''ip route 10.0.1.0 255.255.255.0 null0'' @ [CHR 0x0A]
     @ ''ip prefix-list ROUTEGEN-PL1 seq 1 permit 10.0.0.0/24'' @ [CHR 0x0A]
     @ ''ip prefix-list ROUTEGEN-PL1 seq 2 permit 10.0.1.0/24'' @ [CHR 0x0A]
     @ ''route-map ROUTEGEN-RM permit 1'' @ [CHR 0x0A]
     @ ''  match ip address prefix-list ROUTEGEN-PL1''"
  by (simp add: config_ios_text_def config_ios_lines_def scenario1_routes_def routeDict_def
      route_key_def aspath_as_str_def ios_static_route_def ios_group_lines_def ios_prefix_entry_def
      ios_set_lines_def ios_redistribute_lines_def
      ipv4_with_netmask_def ipv4_str_def dotted_quad_def netmask_def py_split_def dd_get_def
      enumerate_eq_zip digit_char_def Let_def)

subsection \<open>IOS-XR and the dispatch table\<close>

text \<open>
  C8. The claim: asking for IOS-XR fails in a way distinct from asking for an unknown
  platform, the dispatch mechanism telling the two apart. \<open>config_iosxr\<close> is not in the
  table \<open>platforms\<close>: the lookup of \<open>iosxr\<close> raises the same \<open>KeyError\<close> as the lookup of a
  name that no compiler has.
\<close>

theorem iosxr_not_dispatched_counterexample:
  "platforms_getitem ''iosxr'' = Inl KeyError
   \<and> platforms_getitem ''no-such-platform'' = Inl KeyError"
  by (simp add: platforms_getitem_def platforms_def)

text \<open>
  C8, amended. The IOS-XR compiler, when called, always raises \<open>NotImplementedError\<close>; the
  table has entries for \<open>ios\<close>, \<open>junos\<close> and \<open>container\<close> only, and the lookup of every other
  name, \<open>iosxr\<close> among them, raises \<open>KeyError\<close>.
\<close>

theorem iosxr_raises_and_unknown_names:
  "config_iosxr = Inl NotImplementedError
   \<and> (\<forall>name. name \<notin> {''ios'', ''junos'', ''container''} \<longrightarrow> platforms_getitem name = Inl KeyError)"
  by (simp add: config_iosxr_def platforms_getitem_def platforms_def)

theorem iosxr_raises_and_unknown_names_witness:
  "''iosxr'' \<notin> {''ios'', ''junos'', ''container''} \<and> platforms_getitem ''iosxr'' = Inl KeyError
    \<and> config_iosxr = Inl NotImplementedError"
  using iosxr_raises_and_unknown_names by simp

subsection \<open>Grouping of routes\<close>

lemma dd_append_keys:
  "map fst (dd_append d k v) = (if k \<in> set (map fst d) then map fst d else map fst d @ [k])"
  by (induction d) auto

lemma dd_get_dd_append:
  "dd_get (dd_append d k v) k' = (if k' = k then dd_get d k @ [v] else dd_get d k')"
  by (induction d) (auto simp: dd_get_def)

lemma routeDict_snoc:
  "routeDict env (rs @ [r]) = dd_append (routeDict env rs) (route_key env r) (network r)"
  by (simp add: routeDict_def)

lemma routeDict_keys: "map fst (routeDict env rs) = first_seen (map (route_key env) rs)"
proof (induction rs rule: rev_induct)
  case Nil
  show ?case by (simp add: routeDict_def first_seen_def)
next
  case (snoc r rs)
  then show ?case by (simp add: routeDict_snoc dd_append_keys first_seen_def)
qed

lemma routeDict_get:
  "dd_get (routeDict env rs) k = map network (filter (\<lambda>r. route_key env r = k) rs)"
proof (induction rs rule: rev_induct)
  case Nil
  show ?case by (simp add: routeDict_def dd_get_def)
next
  case (snoc r rs)
  then show ?case by (auto simp: routeDict_snoc dd_get_dd_append)
qed

lemma first_seen_set: "set (first_seen xs) = set xs"
  by (simp add: first_seen_def)

lemma first_seen_distinct: "distinct (first_seen xs)"
  by (simp add: first_seen_def)

lemma first_seen_length: "length (first_seen xs) = card (set xs)"
proof -
  have "length (first_seen xs) = length (remdups (rev xs))" by (simp add: first_seen_def)
  also have "\<dots> = card (set (rev xs))" by (rule length_remdups_card_conv)
  finally show ?thesis by simp
qed

lemma first_seen_unique_index:
  assumes "x \<in> set xs"
  shows "\<exists>!i. i < length (first_seen xs) \<and> first_seen xs ! i = x"
proof -
  from assms have "x \<in> set (first_seen xs)" by (simp add: first_seen_set)
  then obtain i where i: "i < length (first_seen xs)" "first_seen xs ! i = x"
    by (auto simp: in_set_conv_nth)
  show ?thesis
  proof (rule ex1I [of _ i])
    show "i < length (first_seen xs) \<and> first_seen xs ! i = x" using i by simp
  next
    fix j assume "j < length (first_seen xs) \<and> first_seen xs ! j = x"
    with i first_seen_distinct [of xs] show "j = i"
      by (auto simp: distinct_conv_nth)
  qed
qed

text \<open>The lines of the IOS compiler, group by group.\<close>

lemma prefix_entry_fun:
  "ios_prefix_entry env n =
     (\<lambda>p. ''ip prefix-list '' @ n @ '' seq '' @ string_of_nat (fst p + 1)
            @ '' permit '' @ str_network env (snd p))"
  by (rule ext) (simp add: ios_prefix_entry_def)

lemma group_lines_fun:
  "ios_group_lines env localAS (routeDict env routes) =
     (\<lambda>e. map (\<lambda>p. ''ip prefix-list ROUTEGEN-PL'' @ string_of_nat (fst e + 1)
                   @ '' seq '' @ string_of_nat (fst p + 1)
                   @ '' permit '' @ str_network env (snd p))
           (List.enumerate 0 (map network (filter (\<lambda>r. route_key env r = snd e) routes)))
         @ [''route-map ROUTEGEN-RM permit '' @ string_of_nat (fst e + 1),
            ''  match ip address prefix-list ROUTEGEN-PL'' @ string_of_nat (fst e + 1)]
         @ ios_set_lines (snd e) @ ios_redistribute_lines localAS)"
  by (rule ext) (simp add: ios_group_lines_def Let_def routeDict_get prefix_entry_fun)

lemma ios_lines_by_group:
  "config_ios_lines env routes localAS vrf =
     map (ios_static_route env (if vrf \<noteq> [] then ''ip route vrf '' @ vrf else ''ip route'')) routes
     @ concat (map (\<lambda>e.
         map (\<lambda>p. ''ip prefix-list ROUTEGEN-PL'' @ string_of_nat (fst e + 1)
                   @ '' seq '' @ string_of_nat (fst p + 1)
                   @ '' permit '' @ str_network env (snd p))
           (List.enumerate 0 (map network (filter (\<lambda>r. route_key env r = snd e) routes)))
         @ [''route-map ROUTEGEN-RM permit '' @ string_of_nat (fst e + 1),
            ''  match ip address prefix-list ROUTEGEN-PL'' @ string_of_nat (fst e + 1)]
         @ ios_set_lines (snd e) @ ios_redistribute_lines localAS)
       (List.enumerate 0 (first_seen (map (route_key env) routes))))"
  by (simp only: config_ios_lines_def Let_def routeDict_keys group_lines_fun)

lemma take_clause_prefix:
  "take (length route_map_clause_prefix) (route_map_clause_prefix @ s) = route_map_clause_prefix"
  by simp

lemma static_route_not_clause:
  "\<not> is_route_map_clause (ios_static_route env (if vrf \<noteq> [] then ''ip route vrf '' @ vrf else ''ip route'') r)"
  by (simp add: is_route_map_clause_def route_map_clause_prefix_def ios_static_route_def)

lemma prefix_entry_not_clause: "\<not> is_route_map_clause (ios_prefix_entry env n e)"
  by (simp add: is_route_map_clause_def route_map_clause_prefix_def ios_prefix_entry_def)

lemma group_lines_one_clause:
  "length (filter is_route_map_clause (ios_group_lines env localAS d e)) = 1"
proof -
  have "filter is_route_map_clause (map (ios_prefix_entry env n) xs) = []" for n xs
    by (simp add: filter_empty_conv prefix_entry_not_clause)
  then show ?thesis
    by (simp add: ios_group_lines_def Let_def is_route_map_clause_def route_map_clause_prefix_def
        ios_set_lines_def ios_redistribute_lines_def)
qed

lemma count_in_concat:
  "(\<And>x. length (filter P (f x)) = 1) \<Longrightarrow> length (filter P (concat (map f xs))) = length xs"
  by (induction xs) simp_all

lemma ios_clause_count:
  "length (filter is_route_map_clause (config_ios_lines env routes localAS vrf))
     = card (route_key env ` set routes)"
proof -
  have "filter is_route_map_clause (map (ios_static_route env
          (if vrf \<noteq> [] then ''ip route vrf '' @ vrf else ''ip route'')) routes) = []"
    by (simp only: filter_empty_conv) (auto simp: static_route_not_clause)
  moreover have "length (routeDict env routes) = card (route_key env ` set routes)"
    using routeDict_keys [of env routes, THEN arg_cong, of length]
    by (simp add: first_seen_length)
  ultimately show ?thesis
    by (simp add: config_ios_lines_def Let_def count_in_concat group_lines_one_clause)
qed

subsection \<open>Grouping keys and policy attributes\<close>

lemma digit_char_cases:
  "d < 10 \<Longrightarrow> d = 0 \<or> d = 1 \<or> d = 2 \<or> d = 3 \<or> d = 4 \<or> d = 5 \<or> d = 6 \<or> d = 7 \<or> d = 8 \<or> d = (9::nat)"
  by arith

lemma digit_char_not_space: "d < 10 \<Longrightarrow> digit_char d \<noteq> CHR '' ''"
  by (drule digit_char_cases) (auto simp: digit_char_def)

lemma digit_char_inj: "d < 10 \<Longrightarrow> e < 10 \<Longrightarrow> digit_char d = digit_char e \<Longrightarrow> d = e"
  by (drule digit_char_cases, drule digit_char_cases) (auto simp: digit_char_def)

lemma string_of_nat_nonempty: "string_of_nat n \<noteq> []"
  by (subst string_of_nat.simps) simp

lemma string_of_nat_no_space: "CHR '' '' \<notin> set (string_of_nat n)"
proof (induction n rule: string_of_nat.induct)
  case (1 n)
  show ?case
  proof (cases "n < 10")
    case True
    then show ?thesis by (subst string_of_nat.simps) (auto dest: digit_char_not_space)
  next
    case False
    have "n mod 10 < 10" by simp
    then have "digit_char (n mod 10) \<noteq> CHR '' ''" by (rule digit_char_not_space)
    with False 1 show ?thesis by (subst string_of_nat.simps) auto
  qed
qed

lemma string_of_nat_inj: "string_of_nat m = string_of_nat n \<Longrightarrow> m = n"
proof (induction m arbitrary: n rule: string_of_nat.induct)
  case (1 m)
  show ?case
  proof (cases "m < 10")
    case m: True
    show ?thesis
    proof (cases "n < 10")
      case True
      with m 1(2) show ?thesis
        by (simp add: string_of_nat.simps [of m] string_of_nat.simps [of n] digit_char_inj)
    next
      case False
      with m 1(2) have "[digit_char m] = string_of_nat (n div 10) @ [digit_char (n mod 10)]"
        by (simp add: string_of_nat.simps [of m] string_of_nat.simps [of n])
      then have "string_of_nat (n div 10) = []" by simp
      then show ?thesis by (simp add: string_of_nat_nonempty)
    qed
  next
    case m: False
    show ?thesis
    proof (cases "n < 10")
      case True
      with m 1(2) have "string_of_nat (m div 10) @ [digit_char (m mod 10)] = [digit_char n]"
        by (simp add: string_of_nat.simps [of m] string_of_nat.simps [of n])
      then have "string_of_nat (m div 10) = []" by simp
      then show ?thesis by (simp add: string_of_nat_nonempty)
    next
      case False
      with m 1(2) have e: "string_of_nat (m div 10) = string_of_nat (n div 10)"
        and d: "digit_char (m mod 10) = digit_char (n mod 10)"
        by (simp_all add: string_of_nat.simps [of m] string_of_nat.simps [of n])
      from 1(1) [OF m e] have "m div 10 = n div 10" .
      moreover from d have "m mod 10 = n mod 10" by (intro digit_char_inj) simp_all
      ultimately show ?thesis by (metis div_mult_mod_eq)
    qed
  qed
qed

lemma plain_words_aspath: "plain_words (map string_of_nat ns)"
  by (auto simp: plain_words_def string_of_nat_nonempty string_of_nat_no_space)

lemma py_join_Cons: "py_join sep (x # xs) = (if xs = [] then x else x @ sep @ py_join sep xs)"
  by (cases xs) simp_all

lemma py_join_nonempty: "plain_words ws \<Longrightarrow> ws \<noteq> [] \<Longrightarrow> py_join '' '' ws \<noteq> []"
  by (cases ws) (auto simp: py_join_Cons plain_words_def)

lemma takeWhile_upto: "c \<notin> set x \<Longrightarrow> takeWhile (\<lambda>a. a \<noteq> c) (x @ c # r) = x"
  by (induction x) auto

lemma plain_split:
  assumes "CHR '' '' \<notin> set x" "CHR '' '' \<notin> set y" "x @ CHR '' '' # r = y @ CHR '' '' # s"
  shows "x = y \<and> r = s"
proof -
  have "takeWhile (\<lambda>c. c \<noteq> CHR '' '') (x @ CHR '' '' # r) = x"
    using assms(1) by (rule takeWhile_upto)
  moreover have "takeWhile (\<lambda>c. c \<noteq> CHR '' '') (y @ CHR '' '' # s) = y"
    using assms(2) by (rule takeWhile_upto)
  ultimately have "x = y" using assms(3) by simp
  with assms(3) show ?thesis by simp
qed

lemma py_join_inj:
  "plain_words xs \<Longrightarrow> plain_words ys \<Longrightarrow> py_join '' '' xs = py_join '' '' ys \<Longrightarrow> xs = ys"
proof (induction xs arbitrary: ys)
  case Nil
  then show ?case using py_join_nonempty [of ys] by (cases "ys = []") auto
next
  case (Cons x xs)
  note C = Cons
  show ?case
  proof (cases ys)
    case Nil
    with C(2,4) py_join_nonempty [of "x # xs"] show ?thesis by simp
  next
    case (Cons y ys')
    from C(2) have px: "CHR '' '' \<notin> set x" "plain_words xs" by (simp_all add: plain_words_def)
    from C(3) Cons have py: "CHR '' '' \<notin> set y" "plain_words ys'" by (simp_all add: plain_words_def)
    show ?thesis
    proof (cases "xs = []")
      case xe: True
      show ?thesis
      proof (cases "ys' = []")
        case True
        with xe C(4) Cons show ?thesis by simp
      next
        case False
        with xe C(4) Cons have "x = y @ CHR '' '' # py_join '' '' ys'" by (simp add: py_join_Cons)
        with px(1) show ?thesis by simp
      qed
    next
      case xn: False
      show ?thesis
      proof (cases "ys' = []")
        case True
        with xn C(4) Cons have "y = x @ CHR '' '' # py_join '' '' xs" by (simp add: py_join_Cons)
        with py(1) show ?thesis by simp
      next
        case False
        with xn C(4) Cons have "x @ CHR '' '' # py_join '' '' xs = y @ CHR '' '' # py_join '' '' ys'"
          by (simp add: py_join_Cons)
        from plain_split [OF px(1) py(1) this] have "x = y" "py_join '' '' xs = py_join '' '' ys'" by simp_all
        with C(1) [OF px(2) py(2)] Cons show ?thesis by simp
      qed
    qed
  qed
qed


lemma route_key_inj:
  assumes "plain_sequence (communities r)" "plain_sequence (communities r')"
    "route_key env r = route_key env r'"
  shows "policy_triple r = policy_triple r'"
proof -
  from assms(1) obtain xs where xs: "communities r = CommSeq xs" "plain_words xs"
    by (cases "communities r") simp_all
  from assms(2) obtain ys where ys: "communities r' = CommSeq ys" "plain_words ys"
    by (cases "communities r'") simp_all
  from assms(3) xs ys
  have a: "py_join '' '' (map string_of_nat (aspath r)) = py_join '' '' (map string_of_nat (aspath r'))"
    and c: "py_join '' '' xs = py_join '' '' ys"
    and o: "origin r = origin r'"
    by (simp_all add: route_key_def aspath_as_str_def)
  from a have "map string_of_nat (aspath r) = map string_of_nat (aspath r')"
    by (intro py_join_inj plain_words_aspath)
  then have "aspath r = aspath r'"
    by (simp add: inj_on_def string_of_nat_inj inj_map_eq_map [unfolded inj_on_def])
  moreover from c xs ys have "xs = ys" by (intro py_join_inj)
  ultimately show ?thesis using o xs ys by (simp add: policy_triple_def)
qed

lemma route_key_of_triple:
  "policy_triple r = policy_triple r' \<Longrightarrow> route_key env r = route_key env r'"
  by (simp add: policy_triple_def route_key_def aspath_as_str_def)

lemma card_keys_triples:
  assumes "\<forall>r\<in>set routes. plain_sequence (communities r)"
  shows "card (route_key env ` set routes) = card (policy_triple ` set routes)"
proof -
  define kf :: "nat list \<times> communities \<times> string \<Rightarrow> policy_key"
    where "kf t = (py_join '' '' (map string_of_nat (fst t)),
                   py_join '' '' (iter_communities env (fst (snd t))), snd (snd t))" for t
  have k: "route_key env r = kf (policy_triple r)" for r
    by (simp add: kf_def route_key_def policy_triple_def aspath_as_str_def)
  have "inj_on kf (policy_triple ` set routes)"
  proof (rule inj_onI)
    fix t t' assume "t \<in> policy_triple ` set routes" "t' \<in> policy_triple ` set routes" "kf t = kf t'"
    then obtain r r' where r: "r \<in> set routes" "t = policy_triple r" "r' \<in> set routes" "t' = policy_triple r'"
      and e: "route_key env r = route_key env r'"
      by (auto simp: k)
    from assms r have "plain_sequence (communities r)" "plain_sequence (communities r')" by simp_all
    from route_key_inj [OF this e] r show "t = t'" by simp
  qed
  then have "card (kf ` policy_triple ` set routes) = card (policy_triple ` set routes)"
    by (rule card_image)
  moreover have "kf ` policy_triple ` set routes = route_key env ` set routes"
    by (simp add: image_image k)
  ultimately show ?thesis by simp
qed

subsection \<open>IOS: policy groups\<close>

lemma sorted_two [simp]:
  "sorted_list_of_set {''65000:100'', ''65000:200''} = [''65000:100'', ''65000:200'']"
  by (simp add: sorted_list_of_set.fold_insort_key.insert_remove insort_key.simps
      less_eq_char_def less_char_def list_le_def)

text \<open>
  C6. The claim: for every route list the number of emitted policy groups equals the number of
  distinct (aspath, communities, origin) triples, every route's network appears in exactly
  one group's prefix-list, and two routes are in the same group iff the three attributes
  are equal. The code groups by the key built from the space-joined AS path, the
  space-joined communities and the origin. The first two routes below differ in their
  communities (one string with a space against the two strings it joins): two distinct
  triples, one key, one route-map clause. The other two routes have one network and
  different origins: the network is listed in the prefix-lists of both groups.
\<close>

theorem ios_grouping_counterexample:
  "card (policy_triple ` set [spaced_route, split_route]) = 2
   \<and> length (filter is_route_map_clause
        (config_ios_lines ascending_run [spaced_route, split_route] (- 1) [])) = 1
   \<and> config_ios_text ascending_run same_network_routes (- 1) [] =
       ''ip route 10.0.0.0 255.255.255.0 null0'' @ [CHR 0x0A]
       @ ''ip route 10.0.0.0 255.255.255.0 null0'' @ [CHR 0x0A]
       @ ''ip prefix-list ROUTEGEN-PL1 seq 1 permit 10.0.0.0/24'' @ [CHR 0x0A]
       @ ''route-map ROUTEGEN-RM permit 1'' @ [CHR 0x0A]
       @ ''  match ip address prefix-list ROUTEGEN-PL1'' @ [CHR 0x0A]
       @ ''ip prefix-list ROUTEGEN-PL2 seq 1 permit 10.0.0.0/24'' @ [CHR 0x0A]
       @ ''route-map ROUTEGEN-RM permit 2'' @ [CHR 0x0A]
       @ ''  match ip address prefix-list ROUTEGEN-PL2'' @ [CHR 0x0A]
       @ ''  set origin egp''"
proof (intro conjI)
  show "card (policy_triple ` set [spaced_route, split_route]) = 2"
    by (simp add: policy_triple_def spaced_route_def split_route_def)
  show "length (filter is_route_map_clause
        (config_ios_lines ascending_run [spaced_route, split_route] (- 1) [])) = 1"
    by (simp add: ios_clause_count)
       (simp add: route_key_def aspath_as_str_def spaced_route_def split_route_def)
  show "config_ios_text ascending_run same_network_routes (- 1) [] =
       ''ip route 10.0.0.0 255.255.255.0 null0'' @ [CHR 0x0A]
       @ ''ip route 10.0.0.0 255.255.255.0 null0'' @ [CHR 0x0A]
       @ ''ip prefix-list ROUTEGEN-PL1 seq 1 permit 10.0.0.0/24'' @ [CHR 0x0A]
       @ ''route-map ROUTEGEN-RM permit 1'' @ [CHR 0x0A]
       @ ''  match ip address prefix-list ROUTEGEN-PL1'' @ [CHR 0x0A]
       @ ''ip prefix-list ROUTEGEN-PL2 seq 1 permit 10.0.0.0/24'' @ [CHR 0x0A]
       @ ''route-map ROUTEGEN-RM permit 2'' @ [CHR 0x0A]
       @ ''  match ip address prefix-list ROUTEGEN-PL2'' @ [CHR 0x0A]
       @ ''  set origin egp''"
    by (simp add: config_ios_text_def config_ios_lines_def same_network_routes_def routeDict_def
      route_key_def aspath_as_str_def ios_static_route_def ios_group_lines_def ios_prefix_entry_def
      ios_set_lines_def ios_redistribute_lines_def ascending_run_def
      ipv4_with_netmask_def ipv4_str_def dotted_quad_def netmask_def py_split_def dd_get_def
      enumerate_eq_zip digit_char_def Let_def)
qed

text \<open>
  C6, amended. For every route list, the lines emitted by the IOS compiler are the static
  routes followed by one block per distinct grouping key (space-joined AS path,
  space-joined communities, origin), the keys in the order of their first occurrence. The
  block of the key at index \<open>i\<close> consists of the prefix-list \<open>ROUTEGEN-PL(i+1)\<close>, whose entries
  are exactly the networks of the routes with that key, in input order and numbered from
  1, and of the route-map clause \<open>i+1\<close>, which matches that prefix-list. The keys of the
  blocks are distinct and are the keys of the routes, so every route is listed in the
  block of exactly one group, and two routes are in the same group iff their keys are
  equal; the number of route-map clauses is the number of distinct keys. Routes with equal
  aspath, communities and origin whose communities are a sequence have equal keys; for
  routes whose communities are sequences of non-empty strings without a space, equal keys
  imply equal aspath, communities and origin, and for a list of such routes the number of
  clauses is the number of distinct (aspath, communities, origin) triples.
\<close>

theorem ios_grouping:
  "config_ios_lines env routes localAS vrf =
     map (ios_static_route env (if vrf \<noteq> [] then ''ip route vrf '' @ vrf else ''ip route'')) routes
     @ concat (map (\<lambda>e.
         map (\<lambda>p. ''ip prefix-list ROUTEGEN-PL'' @ string_of_nat (fst e + 1)
                   @ '' seq '' @ string_of_nat (fst p + 1)
                   @ '' permit '' @ str_network env (snd p))
           (List.enumerate 0 (map network (filter (\<lambda>r. route_key env r = snd e) routes)))
         @ [''route-map ROUTEGEN-RM permit '' @ string_of_nat (fst e + 1),
            ''  match ip address prefix-list ROUTEGEN-PL'' @ string_of_nat (fst e + 1)]
         @ ios_set_lines (snd e) @ ios_redistribute_lines localAS)
       (List.enumerate 0 (first_seen (map (route_key env) routes))))
   \<and> distinct (first_seen (map (route_key env) routes))
   \<and> set (first_seen (map (route_key env) routes)) = route_key env ` set routes
   \<and> (r \<in> set routes \<longrightarrow>
        (\<exists>!i. i < length (first_seen (map (route_key env) routes))
             \<and> first_seen (map (route_key env) routes) ! i = route_key env r))
   \<and> length (filter is_route_map_clause (config_ios_lines env routes localAS vrf))
       = card (route_key env ` set routes)
   \<and> (is_sequence (communities r) \<and> policy_triple r = policy_triple r'
        \<longrightarrow> route_key env r = route_key env r')
   \<and> (plain_sequence (communities r) \<and> plain_sequence (communities r')
        \<and> route_key env r = route_key env r' \<longrightarrow> policy_triple r = policy_triple r')
   \<and> ((\<forall>r\<in>set routes. plain_sequence (communities r))
        \<longrightarrow> length (filter is_route_map_clause (config_ios_lines env routes localAS vrf))
            = card (policy_triple ` set routes))"
proof (intro conjI impI)
  show "config_ios_lines env routes localAS vrf =
     map (ios_static_route env (if vrf \<noteq> [] then ''ip route vrf '' @ vrf else ''ip route'')) routes
     @ concat (map (\<lambda>e.
         map (\<lambda>p. ''ip prefix-list ROUTEGEN-PL'' @ string_of_nat (fst e + 1)
                   @ '' seq '' @ string_of_nat (fst p + 1)
                   @ '' permit '' @ str_network env (snd p))
           (List.enumerate 0 (map network (filter (\<lambda>r. route_key env r = snd e) routes)))
         @ [''route-map ROUTEGEN-RM permit '' @ string_of_nat (fst e + 1),
            ''  match ip address prefix-list ROUTEGEN-PL'' @ string_of_nat (fst e + 1)]
         @ ios_set_lines (snd e) @ ios_redistribute_lines localAS)
       (List.enumerate 0 (first_seen (map (route_key env) routes))))"
    by (rule ios_lines_by_group)
  show "distinct (first_seen (map (route_key env) routes))"
    by (rule first_seen_distinct)
  show "set (first_seen (map (route_key env) routes)) = route_key env ` set routes"
    by (simp add: first_seen_set)
  show "\<exists>!i. i < length (first_seen (map (route_key env) routes))
             \<and> first_seen (map (route_key env) routes) ! i = route_key env r"
    if "r \<in> set routes"
    using that by (intro first_seen_unique_index) simp
  show "length (filter is_route_map_clause (config_ios_lines env routes localAS vrf))
       = card (route_key env ` set routes)"
    by (rule ios_clause_count)
  show "route_key env r = route_key env r'"
    if "is_sequence (communities r) \<and> policy_triple r = policy_triple r'"
    using that by (blast intro: route_key_of_triple)
  show "policy_triple r = policy_triple r'"
    if "plain_sequence (communities r) \<and> plain_sequence (communities r')
        \<and> route_key env r = route_key env r'"
    using that by (blast intro: route_key_inj)
  show "length (filter is_route_map_clause (config_ios_lines env routes localAS vrf))
      = card (policy_triple ` set routes)"
    if "\<forall>r\<in>set routes. plain_sequence (communities r)"
    using card_keys_triples [OF that] by (simp only: ios_clause_count)
qed

theorem ios_grouping_witness:
  "list_all (\<lambda>r. plain_sequence (communities r)) example_routes
   \<and> example_routes ! 1 \<in> set example_routes
   \<and> is_sequence (communities (example_routes ! 1))
   \<and> policy_triple (example_routes ! 1) = policy_triple (example_routes ! 2)
   \<and> route_key ascending_run (example_routes ! 1) = route_key ascending_run (example_routes ! 2)
   \<and> network (example_routes ! 1) \<noteq> network (example_routes ! 2)
   \<and> (\<exists>!i. i < length (first_seen (map (route_key ascending_run) example_routes))
         \<and> first_seen (map (route_key ascending_run) example_routes) ! i
             = route_key ascending_run (example_routes ! 1))
   \<and> card (policy_triple ` set example_routes) = 2
   \<and> length (filter is_route_map_clause (config_ios_lines ascending_run example_routes 65000 [])) = 2
   \<and> config_ios_text ascending_run example_routes 65000 [] =
       ''ip route 10.0.0.0 255.255.255.0 null0'' @ [CHR 0x0A]
       @ ''ip route 10.0.1.0 255.255.255.0 null0'' @ [CHR 0x0A]
       @ ''ip route 10.0.2.0 255.255.255.0 null0'' @ [CHR 0x0A]
       @ ''ip prefix-list ROUTEGEN-PL1 seq 1 permit 10.0.0.0/24'' @ [CHR 0x0A]
       @ ''route-map ROUTEGEN-RM permit 1'' @ [CHR 0x0A]
       @ ''  match ip address prefix-list ROUTEGEN-PL1'' @ [CHR 0x0A]
       @ ''router bgp 65000'' @ [CHR 0x0A]
       @ ''redistribute static route-map ROUTEGEN-RM'' @ [CHR 0x0A]
       @ ''ip prefix-list ROUTEGEN-PL2 seq 1 permit 10.0.1.0/24'' @ [CHR 0x0A]
       @ ''ip prefix-list ROUTEGEN-PL2 seq 2 permit 10.0.2.0/24'' @ [CHR 0x0A]
       @ ''route-map ROUTEGEN-RM permit 2'' @ [CHR 0x0A]
       @ ''  match ip address prefix-list ROUTEGEN-PL2'' @ [CHR 0x0A]
       @ ''  set as-path prepend 65000 65001'' @ [CHR 0x0A]
       @ ''  set community add 65000:100 65000:200'' @ [CHR 0x0A]
       @ ''  set origin egp'' @ [CHR 0x0A]
       @ ''router bgp 65000'' @ [CHR 0x0A]
       @ ''redistribute static route-map ROUTEGEN-RM''"
proof -
  note t = ios_grouping [of ascending_run example_routes 65000 "[]" "example_routes ! 1"
      "example_routes ! 2"]
  have p: "\<forall>r\<in>set example_routes. plain_sequence (communities r)"
    by (simp add: example_routes_def plain_words_def)
  have m: "example_routes ! 1 \<in> set example_routes"
    by (simp add: example_routes_def)
  have c: "card (policy_triple ` set example_routes) = 2"
    by (simp add: example_routes_def policy_triple_def)
  from t p have n: "length (filter is_route_map_clause
      (config_ios_lines ascending_run example_routes 65000 [])) = card (policy_triple ` set example_routes)"
    by blast
  from t m have u: "\<exists>!i. i < length (first_seen (map (route_key ascending_run) example_routes))
         \<and> first_seen (map (route_key ascending_run) example_routes) ! i
             = route_key ascending_run (example_routes ! 1)"
    by blast
  have x: "config_ios_text ascending_run example_routes 65000 [] =
       ''ip route 10.0.0.0 255.255.255.0 null0'' @ [CHR 0x0A]
       @ ''ip route 10.0.1.0 255.255.255.0 null0'' @ [CHR 0x0A]
       @ ''ip route 10.0.2.0 255.255.255.0 null0'' @ [CHR 0x0A]
       @ ''ip prefix-list ROUTEGEN-PL1 seq 1 permit 10.0.0.0/24'' @ [CHR 0x0A]
       @ ''route-map ROUTEGEN-RM permit 1'' @ [CHR 0x0A]
       @ ''  match ip address prefix-list ROUTEGEN-PL1'' @ [CHR 0x0A]
       @ ''router bgp 65000'' @ [CHR 0x0A]
       @ ''redistribute static route-map ROUTEGEN-RM'' @ [CHR 0x0A]
       @ ''ip prefix-list ROUTEGEN-PL2 seq 1 permit 10.0.1.0/24'' @ [CHR 0x0A]
       @ ''ip prefix-list ROUTEGEN-PL2 seq 2 permit 10.0.2.0/24'' @ [CHR 0x0A]
       @ ''route-map ROUTEGEN-RM permit 2'' @ [CHR 0x0A]
       @ ''  match ip address prefix-list ROUTEGEN-PL2'' @ [CHR 0x0A]
       @ ''  set as-path prepend 65000 65001'' @ [CHR 0x0A]
       @ ''  set community add 65000:100 65000:200'' @ [CHR 0x0A]
       @ ''  set origin egp'' @ [CHR 0x0A]
       @ ''router bgp 65000'' @ [CHR 0x0A]
       @ ''redistribute static route-map ROUTEGEN-RM''"
    by (simp add: config_ios_text_def config_ios_lines_def example_routes_def routeDict_def
      route_key_def aspath_as_str_def ios_static_route_def ios_group_lines_def ios_prefix_entry_def
      ios_set_lines_def ios_redistribute_lines_def ascending_run_def string_of_int_def
      ipv4_with_netmask_def ipv4_str_def dotted_quad_def netmask_def py_split_def dd_get_def
      enumerate_eq_zip digit_char_def Let_def)
  have rest: "list_all (\<lambda>r. plain_sequence (communities r)) example_routes
   \<and> is_sequence (communities (example_routes ! 1))
   \<and> policy_triple (example_routes ! 1) = policy_triple (example_routes ! 2)
   \<and> route_key ascending_run (example_routes ! 1) = route_key ascending_run (example_routes ! 2)
   \<and> network (example_routes ! 1) \<noteq> network (example_routes ! 2)"
    by (simp add: example_routes_def plain_words_def policy_triple_def route_key_def aspath_as_str_def)
  from rest m u c n x show ?thesis by (simp only: simp_thms)
qed

subsection \<open>Determinism of the compilers\<close>

lemma iter_sequence:
  "is_sequence c \<Longrightarrow> iter_communities (env\<lparr>set_order := so\<rparr>) c = iter_communities env c"
  by (cases c) simp_all

lemma route_key_sequence:
  "is_sequence (communities r) \<Longrightarrow> route_key (env\<lparr>set_order := so\<rparr>) r = route_key env r"
  by (simp add: route_key_def iter_sequence)

lemma junos_command_sequence:
  "is_sequence (communities r) \<Longrightarrow>
   junos_route_command (env\<lparr>set_order := so\<rparr>) b r = junos_route_command env b r"
  by (simp add: junos_route_command_def iter_sequence)

lemma routeDict_pairs:
  "routeDict env rs =
     foldl (\<lambda>d p. dd_append d (fst p) (snd p)) [] (zip (map (route_key env) rs) (map network rs))"
  by (simp add: routeDict_def zip_map_map foldl_map zip_same_conv_map)

lemma routeDict_cong:
  "map (route_key env) rs = map (route_key env') rs' \<Longrightarrow> map network rs = map network rs' \<Longrightarrow>
   routeDict env rs = routeDict env' rs'"
  by (simp add: routeDict_pairs)

lemma static_routes_cong:
  assumes "map network rs = map network rs'" "with_netmask env = with_netmask env'"
  shows "map (ios_static_route env b) rs = map (ios_static_route env' b) rs'"
proof -
  define g where
    "g n = b @ '' '' @ py_join '' '' (py_split CHR ''/'' (with_netmask env n)) @ '' null0''" for n
  have h: "map (ios_static_route env b) xs = map g (map network xs)" for xs
    by (simp add: g_def ios_static_route_def)
  have h': "map (ios_static_route env' b) xs = map g (map network xs)" for xs
    by (simp add: g_def ios_static_route_def assms(2))
  have "map (ios_static_route env b) rs = map g (map network rs)" by (rule h)
  also have "\<dots> = map g (map network rs')" by (simp only: assms(1))
  also have "\<dots> = map (ios_static_route env' b) rs'" by (rule h' [symmetric])
  finally show ?thesis .
qed

lemma group_lines_cong:
  "str_network env = str_network env' \<Longrightarrow>
   ios_group_lines env localAS d = ios_group_lines env' localAS d"
  by (rule ext) (simp add: ios_group_lines_def Let_def prefix_entry_fun)

lemma config_ios_lines_cong:
  assumes "map (route_key env) rs = map (route_key env') rs'" "map network rs = map network rs'"
    "str_network env = str_network env'" "with_netmask env = with_netmask env'"
  shows "config_ios_lines env rs localAS vrf = config_ios_lines env' rs' localAS vrf"
  using routeDict_cong [OF assms(1,2)] group_lines_cong [OF assms(3), of localAS]
    static_routes_cong [OF assms(2,4), of "if vrf \<noteq> [] then ''ip route vrf '' @ vrf else ''ip route''"]
  by (simp add: config_ios_lines_def Let_def)

lemma config_ios_text_sequences:
  assumes "\<forall>r\<in>set routes. is_sequence (communities r)"
  shows "config_ios_text (env\<lparr>set_order := o1\<rparr>) routes localAS vrf
       = config_ios_text (env\<lparr>set_order := o2\<rparr>) routes localAS vrf"
proof -
  from assms have "map (route_key (env\<lparr>set_order := o1\<rparr>)) routes
      = map (route_key (env\<lparr>set_order := o2\<rparr>)) routes"
    by (simp add: route_key_sequence)
  then have "config_ios_lines (env\<lparr>set_order := o1\<rparr>) routes localAS vrf
      = config_ios_lines (env\<lparr>set_order := o2\<rparr>) routes localAS vrf"
    by (intro config_ios_lines_cong) simp_all
  then show ?thesis by (simp add: config_ios_text_def)
qed

lemma junos_loop_config:
  "config (foldl (junos_route_step env b) st rs) = config st @ map (junos_route_command env b) rs"
  by (induction rs arbitrary: st) (simp_all add: junos_route_step_def Let_def)

lemma config_junos_lines:
  "config (config_junos_locals env routes vrf bgpGroup) =
     map (junos_route_command env
            (py_join '' '' [if vrf \<noteq> [] then ''set routing-instances '' @ vrf else ''set'',
                            ''routing-options static route'']))
         routes
     @ [basePolicyCommand @ '' from protocol static'', basePolicyCommand @ '' then accept'']"
  by (simp add: config_junos_locals_def Let_def junos_loop_config)

lemma config_junos_text_sequences:
  assumes "\<forall>r\<in>set routes. is_sequence (communities r)"
  shows "config_junos_text (env\<lparr>set_order := o1\<rparr>) routes vrf bgpGroup
       = config_junos_text (env\<lparr>set_order := o2\<rparr>) routes vrf bgpGroup"
proof -
  from assms have "map (junos_route_command (env\<lparr>set_order := o1\<rparr>) b) routes
      = map (junos_route_command (env\<lparr>set_order := o2\<rparr>) b) routes" for b
    by (simp add: junos_command_sequence)
  then show ?thesis by (simp only: config_junos_text_def config_junos_lines)
qed

text \<open>
  C9. The claim: for every route list and parameters, two runs of the IOS or the Junos
  compiler on the same inputs produce byte-identical text. The code joins
  \<open>route.communities\<close> in the order in which it traverses them; where the communities of a
  route are a set, which the data model allows, that order is the run's. For the route
  below, with a set of two communities, a run that traverses the set in ascending order
  and one that traverses it in descending order write different texts, for IOS and for
  Junos.
\<close>

theorem compilers_set_order_counterexample:
  "config_ios_text ascending_run [set_route] (- 1) [] =
       ''ip route 10.0.0.0 255.255.255.0 null0'' @ [CHR 0x0A]
       @ ''ip prefix-list ROUTEGEN-PL1 seq 1 permit 10.0.0.0/24'' @ [CHR 0x0A]
       @ ''route-map ROUTEGEN-RM permit 1'' @ [CHR 0x0A]
       @ ''  match ip address prefix-list ROUTEGEN-PL1'' @ [CHR 0x0A]
       @ ''  set community add 65000:100 65000:200''
   \<and> config_ios_text descending_run [set_route] (- 1) [] =
       ''ip route 10.0.0.0 255.255.255.0 null0'' @ [CHR 0x0A]
       @ ''ip prefix-list ROUTEGEN-PL1 seq 1 permit 10.0.0.0/24'' @ [CHR 0x0A]
       @ ''route-map ROUTEGEN-RM permit 1'' @ [CHR 0x0A]
       @ ''  match ip address prefix-list ROUTEGEN-PL1'' @ [CHR 0x0A]
       @ ''  set community add 65000:200 65000:100''
   \<and> config_junos_text ascending_run [set_route] [] [] =
       ''set routing-options static route 10.0.0.0/24 discard community [ 65000:100 65000:200 ]''
       @ [CHR 0x0A]
       @ ''set policy-options policy-statement ROUTEGEN-POLICY term 1 from protocol static''
       @ [CHR 0x0A] @ ''set policy-options policy-statement ROUTEGEN-POLICY term 1 then accept''
   \<and> config_junos_text descending_run [set_route] [] [] =
       ''set routing-options static route 10.0.0.0/24 discard community [ 65000:200 65000:100 ]''
       @ [CHR 0x0A]
       @ ''set policy-options policy-statement ROUTEGEN-POLICY term 1 from protocol static''
       @ [CHR 0x0A] @ ''set policy-options policy-statement ROUTEGEN-POLICY term 1 then accept''"
  by (simp add: config_ios_text_def config_ios_lines_def set_route_def routeDict_def
      route_key_def aspath_as_str_def ios_static_route_def ios_group_lines_def ios_prefix_entry_def
      ios_set_lines_def ios_redistribute_lines_def ascending_run_def descending_run_def
      ipv4_with_netmask_def ipv4_str_def dotted_quad_def netmask_def py_split_def dd_get_def
      enumerate_eq_zip digit_char_def Let_def
      config_junos_text_def config_junos_locals_def junos_route_step_def junos_route_command_def
      basePolicyCommand_def)

text \<open>
  C9, amended. On route lists whose communities are all sequences, the IOS and the Junos
  compiler are deterministic: the text is the same whatever order the run uses to
  traverse sets. For IOS, grouping and enumeration depend only on the input order and on
  the grouping keys: two route lists with the same sequence of keys and the same sequence
  of networks give the same text. For Junos, the text is one line per route, in input
  order, followed by the two policy lines. The text does not depend on the files on disk:
  when \<open>path/config.txt\<close> can be opened for writing, its new content is exactly this text,
  and otherwise the exception of \<open>open\<close> is raised and nothing is written.
\<close>

theorem compilers_deterministic:
  "((\<forall>r\<in>set routes. is_sequence (communities r)) \<longrightarrow>
       config_ios_text (env\<lparr>set_order := o1\<rparr>) routes localAS vrf
         = config_ios_text (env\<lparr>set_order := o2\<rparr>) routes localAS vrf
     \<and> config_junos_text (env\<lparr>set_order := o1\<rparr>) routes vrf bgpGroup
         = config_junos_text (env\<lparr>set_order := o2\<rparr>) routes vrf bgpGroup)
   \<and> (map (route_key env) routes = map (route_key env) routes'
        \<and> map network routes = map network routes'
      \<longrightarrow> config_ios_text env routes localAS vrf = config_ios_text env routes' localAS vrf)
   \<and> config_junos_text env routes vrf bgpGroup =
       py_join [CHR 0x0A]
         (map (junos_route_command env
                 (py_join '' '' [if vrf \<noteq> [] then ''set routing-instances '' @ vrf else ''set'',
                                 ''routing-options static route'']))
              routes
          @ [basePolicyCommand @ '' from protocol static'', basePolicyCommand @ '' then accept''])
   \<and> (open_error fs (path @ ''/config.txt'') = None \<longrightarrow>
       config_ios env routes path localAS vrf fs
         = Inr (fs\<lparr>files := (files fs)(path @ ''/config.txt''
                   \<mapsto> config_ios_text env routes localAS vrf)\<rparr>)
     \<and> config_junos env routes path vrf bgpGroup fs
         = Inr (fs\<lparr>files := (files fs)(path @ ''/config.txt''
                   \<mapsto> config_junos_text env routes vrf bgpGroup)\<rparr>))
   \<and> (open_error fs (path @ ''/config.txt'') = Some e \<longrightarrow>
       config_ios env routes path localAS vrf fs = Inl e
     \<and> config_junos env routes path vrf bgpGroup fs = Inl e)"
proof (intro conjI impI)
  assume s: "\<forall>r\<in>set routes. is_sequence (communities r)"
  show "config_ios_text (env\<lparr>set_order := o1\<rparr>) routes localAS vrf
         = config_ios_text (env\<lparr>set_order := o2\<rparr>) routes localAS vrf"
    using s by (rule config_ios_text_sequences)
  show "config_junos_text (env\<lparr>set_order := o1\<rparr>) routes vrf bgpGroup
         = config_junos_text (env\<lparr>set_order := o2\<rparr>) routes vrf bgpGroup"
    using s by (rule config_junos_text_sequences)
next
  assume "map (route_key env) routes = map (route_key env) routes'
        \<and> map network routes = map network routes'"
  then have "config_ios_lines env routes localAS vrf = config_ios_lines env routes' localAS vrf"
    by (intro config_ios_lines_cong) simp_all
  then show "config_ios_text env routes localAS vrf = config_ios_text env routes' localAS vrf"
    by (simp add: config_ios_text_def)
next
  show "config_junos_text env routes vrf bgpGroup =
       py_join [CHR 0x0A]
         (map (junos_route_command env
                 (py_join '' '' [if vrf \<noteq> [] then ''set routing-instances '' @ vrf else ''set'',
                                 ''routing-options static route'']))
              routes
          @ [basePolicyCommand @ '' from protocol static'', basePolicyCommand @ '' then accept''])"
    by (simp only: config_junos_text_def config_junos_lines)
next
  assume "open_error fs (path @ ''/config.txt'') = None"
  then show "config_ios env routes path localAS vrf fs
         = Inr (fs\<lparr>files := (files fs)(path @ ''/config.txt''
                   \<mapsto> config_ios_text env routes localAS vrf)\<rparr>)"
    and "config_junos env routes path vrf bgpGroup fs
         = Inr (fs\<lparr>files := (files fs)(path @ ''/config.txt''
                   \<mapsto> config_junos_text env routes vrf bgpGroup)\<rparr>)"
    by (simp_all add: config_ios_def config_junos_def writeConfig_def default_fileName_def)
next
  assume "open_error fs (path @ ''/config.txt'') = Some e"
  then show "config_ios env routes path localAS vrf fs = Inl e"
    and "config_junos env routes path vrf bgpGroup fs = Inl e"
    by (simp_all add: config_ios_def config_junos_def writeConfig_def default_fileName_def)
qed

theorem compilers_deterministic_witness:
  "list_all (\<lambda>r. is_sequence (communities r)) example_routes
   \<and> config_ios_text ascending_run example_routes 65000 []
       = config_ios_text descending_run example_routes 65000 []
   \<and> config_junos_text ascending_run example_routes [] ''PEERS''
       = config_junos_text descending_run example_routes [] ''PEERS''
   \<and> map (route_key ascending_run) [spaced_route]
       = map (route_key ascending_run) [split_route\<lparr>network := network spaced_route\<rparr>]
   \<and> map network [spaced_route] = map network [split_route\<lparr>network := network spaced_route\<rparr>]
   \<and> spaced_route \<noteq> split_route\<lparr>network := network spaced_route\<rparr>
   \<and> config_ios_text ascending_run [spaced_route] 65000 []
       = config_ios_text ascending_run [split_route\<lparr>network := network spaced_route\<rparr>] 65000 []
   \<and> open_error writable_disk (''out'' @ ''/config.txt'') = None
   \<and> config_ios ascending_run example_routes ''out'' 65000 [] writable_disk
       = Inr (writable_disk\<lparr>files := (files writable_disk)(''out'' @ ''/config.txt''
                 \<mapsto> config_ios_text ascending_run example_routes 65000 [])\<rparr>)
   \<and> open_error empty_disk (''out'' @ ''/config.txt'') = Some FileNotFoundError
   \<and> config_ios ascending_run example_routes ''out'' 65000 [] empty_disk = Inl FileNotFoundError
   \<and> config_junos ascending_run example_routes ''out'' [] ''PEERS'' empty_disk = Inl FileNotFoundError"
proof -
  have a: "ascending_run\<lparr>set_order := sorted_list_of_set\<rparr> = ascending_run"
    and d: "ascending_run\<lparr>set_order := (\<lambda>S. rev (sorted_list_of_set S))\<rparr> = descending_run"
    by (simp_all add: ascending_run_def descending_run_def)
  have s: "\<forall>r\<in>set example_routes. is_sequence (communities r)"
    by (simp add: example_routes_def)
  from compilers_deterministic [where routes = example_routes and env = ascending_run
      and ?o1.0 = sorted_list_of_set and ?o2.0 = "\<lambda>S. rev (sorted_list_of_set S)"
      and localAS = 65000 and vrf = "[]" and bgpGroup = "''PEERS''", THEN conjunct1] s
  have "config_ios_text (ascending_run\<lparr>set_order := sorted_list_of_set\<rparr>) example_routes 65000 []
       = config_ios_text (ascending_run\<lparr>set_order := (\<lambda>S. rev (sorted_list_of_set S))\<rparr>)
           example_routes 65000 []
     \<and> config_junos_text (ascending_run\<lparr>set_order := sorted_list_of_set\<rparr>) example_routes [] ''PEERS''
       = config_junos_text (ascending_run\<lparr>set_order := (\<lambda>S. rev (sorted_list_of_set S))\<rparr>)
           example_routes [] ''PEERS''"
    by (rule mp)
  then have t1: "config_ios_text ascending_run example_routes 65000 []
       = config_ios_text descending_run example_routes 65000 []"
    and t2: "config_junos_text ascending_run example_routes [] ''PEERS''
       = config_junos_text descending_run example_routes [] ''PEERS''"
    by (simp_all only: a d)
  have k: "map (route_key ascending_run) [spaced_route]
       = map (route_key ascending_run) [split_route\<lparr>network := network spaced_route\<rparr>]
     \<and> map network [spaced_route] = map network [split_route\<lparr>network := network spaced_route\<rparr>]"
    and ne: "spaced_route \<noteq> split_route\<lparr>network := network spaced_route\<rparr>"
    by (simp_all add: spaced_route_def split_route_def route_key_def aspath_as_str_def)
  from compilers_deterministic [where routes = "[spaced_route]" and env = ascending_run
      and routes' = "[split_route\<lparr>network := network spaced_route\<rparr>]"
      and localAS = 65000 and vrf = "[]"] k
  have t3: "config_ios_text ascending_run [spaced_route] 65000 []
       = config_ios_text ascending_run [split_route\<lparr>network := network spaced_route\<rparr>] 65000 []"
    by blast
  have w: "open_error writable_disk (''out'' @ ''/config.txt'') = None"
    and n: "open_error empty_disk (''out'' @ ''/config.txt'') = Some FileNotFoundError"
    by (simp_all add: writable_disk_def empty_disk_def)
  from compilers_deterministic [where routes = example_routes and env = ascending_run
      and localAS = 65000 and vrf = "[]" and fs = writable_disk and path = "''out''"] w
  have t4: "config_ios ascending_run example_routes ''out'' 65000 [] writable_disk
       = Inr (writable_disk\<lparr>files := (files writable_disk)(''out'' @ ''/config.txt''
                 \<mapsto> config_ios_text ascending_run example_routes 65000 [])\<rparr>)"
    by blast
  from compilers_deterministic [where routes = example_routes and env = ascending_run
      and localAS = 65000 and vrf = "[]" and bgpGroup = "''PEERS''" and fs = empty_disk
      and path = "''out''" and e = FileNotFoundError] n
  have t5: "config_ios ascending_run example_routes ''out'' 65000 [] empty_disk = Inl FileNotFoundError"
    and t6: "config_junos ascending_run example_routes ''out'' [] ''PEERS'' empty_disk = Inl FileNotFoundError"
    by blast+
  from s have s': "list_all (\<lambda>r. is_sequence (communities r)) example_routes"
    by (simp add: list_all_iff)
  from s' t1 t2 k ne t3 w t4 n t5 t6 show ?thesis by (simp only: simp_thms)
qed

end
